theory Spec2Isabelle
  imports
    Main
    "HOL-Library.Char_ord"
    "HOL-Library.List_Lexorder"
    "HOL-Library.Product_Lexorder"
begin


section \<open>The plate/run merger of \<open>merge_plate_run.py\<close>\<close>

text \<open>
  The script has one procedure, \<open>combine_plates\<close>, which drives an object-management
  server through a connection. The server's persisted objects are the state of the
  model; every call that saves an object returns the updated state, and every failure
  of the Python (a failed \<open>assert\<close>, an attribute access on \<open>None\<close>, a missing
  dictionary key) is a value of type \<open>error\<close> returned together with the state persisted
  so far, since nothing is rolled back.
\<close>

subsection \<open>Persisted objects\<close>

text \<open>
  A plate has an id, a name and at most one parent screen (what \<open>plate.getParent()\<close>
  returns). A well belongs to a plate and sits at a row and a column. A well-sample refers
  to its well and, optionally, to its run (\<open>plateAcquisition\<close>). A run has an id, a name, the
  plate it belongs to and an optional start time (what \<open>getStartTime()\<close> returns).
\<close>

record plate =
  plate_id :: int
  plate_name :: string
  plate_screen :: "int option"

record well =
  well_id :: int
  well_plate :: int
  well_row :: int
  well_column :: int

record well_sample =
  ws_id :: int
  ws_well :: int
  ws_run :: "int option"

record run =
  run_id :: int
  run_name :: string
  run_plate :: int
  run_start :: "int option"

record conn =
  plates :: "plate list"
  wells :: "well list"
  well_samples :: "well_sample list"
  runs :: "run list"

datatype assertion =
    TargetNotFound
  | NoStartTime
  | NotInScreen "int list"
  | DifferentScreens "int set"

datatype error =
    AssertionError assertion
  | AttributeError
  | KeyError

text \<open>
  \<open>run_script\<close> catches \<open>AssertionError\<close> only: it is the one failure reported to the
  user through the \<open>ERROR\<close> output; every other exception propagates unhandled.
\<close>

fun reported :: "error \<Rightarrow> bool" where
  "reported (AssertionError a) = True"
| "reported AttributeError = False"
| "reported KeyError = False"

text \<open>The ordering labels offered to the user by \<open>run_script\<close>.\<close>

definition sort_ways :: "string list" where
  "sort_ways = [''Plate name'', ''Acquisition name'', ''Acquisition start time'']"

text \<open>\<open>source_ids\<close> is an \<open>int\<close> or an iterable of them; an \<open>int\<close> is wrapped in a list.\<close>

datatype source_ids = IdInt int | IdList "int list"

fun ids_list :: "source_ids \<Rightarrow> int list" where
  "ids_list (IdInt i) = [i]"
| "ids_list (IdList l) = l"

subsection \<open>Queries of the gateway\<close>

text \<open>
  Modelled from the spec: the gateway library is not part of the repository. Its queries
  read the persisted objects: \<open>getObject\<close> returns the object with the id or \<open>None\<close>,
  \<open>getObjects\<close> the objects whose id is among those asked for, \<open>listPlateAcquisitions\<close> the
  runs of a plate, \<open>listChildren\<close> the wells of a plate or the well-samples of a well, and
  \<open>getWellPos\<close> identifies the (row, column) position of a well.
\<close>

definition getObject_Plate :: "conn \<Rightarrow> int \<Rightarrow> plate option" where
  "getObject_Plate c i = find (\<lambda>p. plate_id p = i) (plates c)"

definition getObjects_Plate :: "conn \<Rightarrow> int list \<Rightarrow> plate list" where
  "getObjects_Plate c ids = filter (\<lambda>p. plate_id p \<in> set ids) (plates c)"

definition getObjects_PlateAcquisition :: "conn \<Rightarrow> int list \<Rightarrow> run list" where
  "getObjects_PlateAcquisition c ids = filter (\<lambda>r. run_id r \<in> set ids) (runs c)"

definition listPlateAcquisitions :: "conn \<Rightarrow> int \<Rightarrow> run list" where
  "listPlateAcquisitions c pid = filter (\<lambda>r. run_plate r = pid) (runs c)"

definition listChildren_Plate :: "conn \<Rightarrow> int \<Rightarrow> well list" where
  "listChildren_Plate c pid = filter (\<lambda>w. well_plate w = pid) (wells c)"

definition listChildren_Well :: "conn \<Rightarrow> int \<Rightarrow> well_sample list" where
  "listChildren_Well c wid = filter (\<lambda>s. ws_well s = wid) (well_samples c)"

definition getWellPos :: "well \<Rightarrow> int \<times> int" where
  "getWellPos w = (well_row w, well_column w)"

text \<open>A newly saved object receives an id that no object of its kind has.\<close>

definition fresh_id :: "int list \<Rightarrow> int" where
  "fresh_id ids = fold max ids 0 + 1"

subsection \<open>Ordering the work list\<close>

text \<open>
  Python's \<open>sorted\<close> computes the key of every element first (a key that raises aborts
  the call) and then sorts stably by the keys.
\<close>

fun keys_py :: "('a \<Rightarrow> error + 'k) \<Rightarrow> 'a list \<Rightarrow> error + ('k \<times> 'a) list" where
  "keys_py key [] = Inr []"
| "keys_py key (x # xs) =
     (case key x of
        Inl e \<Rightarrow> Inl e
      | Inr k \<Rightarrow> (case keys_py key xs of
                    Inl e \<Rightarrow> Inl e
                  | Inr ks \<Rightarrow> Inr ((k, x) # ks)))"

definition sorted_py :: "('a \<Rightarrow> error + 'k::linorder) \<Rightarrow> 'a list \<Rightarrow> error + 'a list" where
  "sorted_py key xs =
     (case keys_py key xs of
        Inl e \<Rightarrow> Inl e
      | Inr ks \<Rightarrow> Inr (map snd (sort_key fst ks)))"

text \<open>
  An element of the work list is a pair of a plate and a run. With
  \<open>source_type = "Acquisition"\<close> the plate is \<open>run_o.getParent()\<close>, which is \<open>None\<close> when the
  plate of the run does not resolve; a method called on it raises \<open>AttributeError\<close>.
\<close>

type_synonym plate_run = "plate option \<times> run"

definition key_plate_run_name :: "plate_run \<Rightarrow> error + (string \<times> string)" where
  "key_plate_run_name x =
     (case fst x of
        None \<Rightarrow> Inl AttributeError
      | Some p \<Rightarrow> Inr (plate_name p, run_name (snd x)))"

definition key_run_name :: "plate_run \<Rightarrow> error + string" where
  "key_run_name x = Inr (run_name (snd x))"

text \<open>
  The key of the third branch is \<open>lambda x: x.getStartTime()\<close>, applied to the pair itself:
  a tuple has no such attribute.
\<close>

definition key_start_time :: "plate_run \<Rightarrow> error + int" where
  "key_start_time x = Inl AttributeError"

definition sort_plate_run_l :: "string \<Rightarrow> plate_run list \<Rightarrow> error + plate_run list" where
  "sort_plate_run_l sort_way plate_run_l =
     (if sort_way = ''Plate & run name'' then sorted_py key_plate_run_name plate_run_l
      else if sort_way = ''Acquisition name'' then sorted_py key_run_name plate_run_l
      else if sort_way = ''Acquisition start time'' then
        (let all_time = map (\<lambda>x. run_start (snd x)) plate_run_l
         in if None \<in> set all_time then Inl (AssertionError NoStartTime)
            else sorted_py key_start_time plate_run_l)
      else Inr plate_run_l)"

subsection \<open>Resolving the work list\<close>

text \<open>
  A source plate without a run gets one, named after the plate, to which all the
  well-samples of the plate's wells are added; the run is saved at once.
\<close>

definition synthesize_run :: "conn \<Rightarrow> plate \<Rightarrow> conn" where
  "synthesize_run c plate_o =
     (let rid = fresh_id (map run_id (runs c));
          plate_acq_o = \<lparr>run_id = rid, run_name = plate_name plate_o,
                         run_plate = plate_id plate_o, run_start = None\<rparr>;
          well_ids = map well_id (listChildren_Plate c (plate_id plate_o))
      in c\<lparr>well_samples :=
             map (\<lambda>ws. if ws_well ws \<in> set well_ids then ws\<lparr>ws_run := Some rid\<rparr> else ws)
               (well_samples c),
           runs := runs c @ [plate_acq_o]\<rparr>)"

fun ensure_runs :: "conn \<Rightarrow> int list \<Rightarrow> (error + unit) \<times> conn" where
  "ensure_runs c [] = (Inr (), c)"
| "ensure_runs c (pid # ids) =
     (case getObject_Plate c pid of
        None \<Rightarrow> (Inl AttributeError, c)
      | Some plate_o \<Rightarrow>
          ensure_runs
            (if listPlateAcquisitions c pid = [] then synthesize_run c plate_o else c) ids)"

text \<open>
  \<open>set(source_ids).difference({target_plate_id})\<close> is iterated in an order Python does not
  specify: \<open>set_order\<close> is that order, a function that lists each element of the set once
  (\<open>set_iteration\<close>).
\<close>

definition set_iteration :: "(int list \<Rightarrow> int list) \<Rightarrow> bool" where
  "set_iteration set_order \<longleftrightarrow> (\<forall>xs. distinct (set_order xs) \<and> set (set_order xs) = set xs)"

definition resolve_plate_run_l ::
  "(int list \<Rightarrow> int list) \<Rightarrow> conn \<Rightarrow> int \<Rightarrow> int list \<Rightarrow> string
     \<Rightarrow> (error + plate_run list) \<times> conn" where
  "resolve_plate_run_l set_order c target_plate_id source_ids source_type =
     (if source_type = ''Plate'' then
        (let ids = set_order (removeAll target_plate_id source_ids)
         in case ensure_runs c ids of
              (Inl e, c') \<Rightarrow> (Inl e, c')
            | (Inr u, c') \<Rightarrow>
                (Inr (concat (map (\<lambda>plate_o.
                         map (\<lambda>run_o. (Some plate_o, run_o))
                           (listPlateAcquisitions c' (plate_id plate_o)))
                       (getObjects_Plate c' ids))), c'))
      else
        (Inr (map (\<lambda>run_o. (getObject_Plate c (run_plate run_o), run_o))
                (getObjects_PlateAcquisition c source_ids)), c))"

subsection \<open>Screen safety\<close>

text \<open>
  The loop over the plates of the work list followed by the target plate collects the
  screens in \<open>screen_l\<close> and the ids of the plates without a screen in \<open>plate_l\<close>.
  \<open>list(set(screen_l))\<close> holds each screen once, in the order of Python's set iteration,
  which the code does not control: its length is the number of distinct screens, and the
  error carries the screens as a set.
\<close>

fun screen_scan :: "plate option list \<Rightarrow> int list \<times> int list \<Rightarrow> error + (int list \<times> int list)" where
  "screen_scan [] (screen_l, plate_l) = Inr (screen_l, plate_l)"
| "screen_scan (None # ps) (screen_l, plate_l) = Inl AttributeError"
| "screen_scan (Some plate # ps) (screen_l, plate_l) =
     (case plate_screen plate of
        None \<Rightarrow> screen_scan ps (screen_l, plate_l @ [plate_id plate])
      | Some screen \<Rightarrow> screen_scan ps (screen_l @ [screen], plate_l))"

definition screen_safety :: "plate_run list \<Rightarrow> plate \<Rightarrow> error + unit" where
  "screen_safety plate_run_l target_plate =
     (case screen_scan (map fst plate_run_l @ [Some target_plate]) ([], []) of
        Inl e \<Rightarrow> Inl e
      | Inr (screen_l, plate_l) \<Rightarrow>
          (if length plate_l \<noteq> 0 then Inl (AssertionError (NotInScreen plate_l))
           else if card (set screen_l) \<noteq> 1
             then Inl (AssertionError (DifferentScreens (set screen_l)))
           else Inr ()))"

subsection \<open>Populating the target with missing wells\<close>

type_synonym well_d = "int \<times> int \<rightharpoonup> well"

definition index_wells :: "well list \<Rightarrow> well_d" where
  "index_wells ws = fold (\<lambda>well d. d(getWellPos well \<mapsto> well)) ws Map.empty"

fun create_wells :: "int \<Rightarrow> well list \<Rightarrow> conn \<times> well_d \<times> nat \<Rightarrow> conn \<times> well_d \<times> nat" where
  "create_wells tid [] (c, d, new_well_count) = (c, d, new_well_count)"
| "create_wells tid (well # ws) (c, d, new_well_count) =
     (if d (getWellPos well) = None then
        (let new_well = \<lparr>well_id = fresh_id (map well_id (wells c)), well_plate = tid,
                          well_row = well_row well, well_column = well_column well\<rparr>
         in create_wells tid ws
              (c\<lparr>wells := wells c @ [new_well]\<rparr>, d(getWellPos well \<mapsto> new_well),
               new_well_count + 1))
      else create_wells tid ws (c, d, new_well_count))"

fun populate_target ::
  "int \<Rightarrow> plate option list \<Rightarrow> conn \<times> well_d \<times> nat \<Rightarrow> (error + well_d \<times> nat) \<times> conn" where
  "populate_target tid [] (c, d, new_well_count) = (Inr (d, new_well_count), c)"
| "populate_target tid (None # ps) (c, d, new_well_count) = (Inl AttributeError, c)"
| "populate_target tid (Some plate # ps) (c, d, new_well_count) =
     populate_target tid ps
       (create_wells tid (listChildren_Plate c (plate_id plate)) (c, d, new_well_count))"

subsection \<open>Folding the runs into the target\<close>

text \<open>
  For one run, the well-samples of the run are re-pointed in memory, well by well of the
  run's plate; \<open>moved_wells\<close> lists them as pairs of a well-sample id and the id of its new
  well. A well-sample without a run makes the filter fail (\<open>plateAcquisition\<close> is \<open>None\<close>), a
  position missing from \<open>well_d\<close> is a \<open>KeyError\<close>. Only after the whole plate has been
  traversed are the wells and the run saved.
\<close>

fun moved_samples :: "int \<Rightarrow> well \<Rightarrow> well_sample list \<Rightarrow> error + (int \<times> int) list" where
  "moved_samples rid well_oi [] = Inr []"
| "moved_samples rid well_oi (ws # wss) =
     (case ws_run ws of
        None \<Rightarrow> Inl AttributeError
      | Some r \<Rightarrow>
          (case moved_samples rid well_oi wss of
             Inl e \<Rightarrow> Inl e
           | Inr ms \<Rightarrow> Inr (if r = rid then (ws_id ws, well_id well_oi) # ms else ms)))"

fun moved_wells :: "conn \<Rightarrow> well_d \<Rightarrow> int \<Rightarrow> well list \<Rightarrow> error + (int \<times> int) list" where
  "moved_wells c d rid [] = Inr []"
| "moved_wells c d rid (well # ws) =
     (case d (getWellPos well) of
        None \<Rightarrow> Inl KeyError
      | Some well_oi \<Rightarrow>
          (case moved_samples rid well_oi (listChildren_Well c (well_id well)) of
             Inl e \<Rightarrow> Inl e
           | Inr ms \<Rightarrow>
               (case moved_wells c d rid ws of
                  Inl e \<Rightarrow> Inl e
                | Inr ms' \<Rightarrow> Inr (ms @ ms'))))"

definition save_moves :: "(int \<times> int) list \<Rightarrow> well_sample list \<Rightarrow> well_sample list" where
  "save_moves ms =
     map (\<lambda>ws. case map_of ms (ws_id ws) of None \<Rightarrow> ws | Some wid \<Rightarrow> ws\<lparr>ws_well := wid\<rparr>)"

definition save_run :: "int \<Rightarrow> int \<Rightarrow> run list \<Rightarrow> run list" where
  "save_run rid tid = map (\<lambda>r. if run_id r = rid then r\<lparr>run_plate := tid\<rparr> else r)"

definition fold_run :: "conn \<Rightarrow> int \<Rightarrow> well_d \<Rightarrow> plate_run \<Rightarrow> (error + nat) \<times> conn" where
  "fold_run c tid d x =
     (case fst x of
        None \<Rightarrow> (Inl AttributeError, c)
      | Some plate \<Rightarrow>
          (case moved_wells c d (run_id (snd x)) (listChildren_Plate c (plate_id plate)) of
             Inl e \<Rightarrow> (Inl e, c)
           | Inr ms \<Rightarrow>
               (Inr (length ms),
                c\<lparr>well_samples := save_moves ms (well_samples c),
                  runs := save_run (run_id (snd x)) tid (runs c)\<rparr>)))"

text \<open>After each run the target plate is loaded again and \<open>well_d\<close> is rebuilt from it.\<close>

fun fold_runs ::
  "plate_run list \<Rightarrow> conn \<times> plate \<times> well_d \<times> nat \<Rightarrow> (error + plate \<times> nat) \<times> conn" where
  "fold_runs [] (c, target_plate, d, count_well_sample) =
     (Inr (target_plate, count_well_sample), c)"
| "fold_runs (x # xs) (c, target_plate, d, count_well_sample) =
     (case fold_run c (plate_id target_plate) d x of
        (Inl e, c') \<Rightarrow> (Inl e, c')
      | (Inr k, c') \<Rightarrow>
          (case getObject_Plate c' (plate_id target_plate) of
             None \<Rightarrow> (Inl AttributeError, c')
           | Some target_plate' \<Rightarrow>
               fold_runs xs
                 (c', target_plate',
                  index_wells (listChildren_Plate c' (plate_id target_plate')),
                  count_well_sample + k)))"

subsection \<open>The summary message\<close>

definition digit_char :: "nat \<Rightarrow> char" where
  "digit_char n = ''0123456789'' ! (n mod 10)"

function str_nat :: "nat \<Rightarrow> string" where
  "str_nat n = (if n < 10 then [digit_char n] else str_nat (n div 10) @ [digit_char n])"
  by pat_completeness auto
termination
  by (relation "measure (\<lambda>n. n)") auto

declare str_nat.simps [simp del]

definition str_int :: "int \<Rightarrow> string" where
  "str_int i = (if i < 0 then ''-'' @ str_nat (nat (- i)) else str_nat (nat i))"

definition message :: "nat \<Rightarrow> nat \<Rightarrow> int \<Rightarrow> nat \<Rightarrow> string" where
  "message count_well_sample n_runs target_id new_well_count =
     str_nat count_well_sample @ '' Images from '' @ str_nat n_runs
       @ '' Runs merged into Plate:'' @ str_int target_id @ ''.''
       @ (if new_well_count > 0 then '' '' @ str_nat new_well_count @ '' Wells created.''
          else [])"

subsection \<open>The merge\<close>

definition combine_plates ::
  "(int list \<Rightarrow> int list) \<Rightarrow> conn \<Rightarrow> int \<Rightarrow> source_ids \<Rightarrow> string \<Rightarrow> string \<Rightarrow> bool
     \<Rightarrow> (error + string \<times> plate) \<times> conn" where
  "combine_plates set_order c target_plate_id source_ids source_type sort_way same_screen =
     (case getObject_Plate c target_plate_id of
        None \<Rightarrow> (Inl (AssertionError TargetNotFound), c)
      | Some target_plate \<Rightarrow>
     (case resolve_plate_run_l set_order c target_plate_id (ids_list source_ids) source_type of
        (Inl e, c1) \<Rightarrow> (Inl e, c1)
      | (Inr l, c1) \<Rightarrow>
     (case sort_plate_run_l sort_way l of
        Inl e \<Rightarrow> (Inl e, c1)
      | Inr plate_run_l \<Rightarrow>
     (case (if same_screen then screen_safety plate_run_l target_plate else Inr ()) of
        Inl e \<Rightarrow> (Inl e, c1)
      | Inr u \<Rightarrow>
     (case populate_target (plate_id target_plate) (map fst plate_run_l)
             (c1, index_wells (listChildren_Plate c1 (plate_id target_plate)), 0) of
        (Inl e, c2) \<Rightarrow> (Inl e, c2)
      | (Inr (well_d, new_well_count), c2) \<Rightarrow>
     (case fold_runs plate_run_l (c2, target_plate, well_d, 0) of
        (Inl e, c3) \<Rightarrow> (Inl e, c3)
      | (Inr (target_plate', count_well_sample), c3) \<Rightarrow>
          (Inr (message count_well_sample (length plate_run_l) (plate_id target_plate')
                  new_well_count,
                target_plate'), c3)))))))"

subsection \<open>Notions used to state the properties\<close>

text \<open>
  The two validation failures of the merge after the target has been found: a run without
  a start time under the ordering by start time, and the screen-safety check.
\<close>

fun validation_failure :: "error \<Rightarrow> bool" where
  "validation_failure (AssertionError NoStartTime) = True"
| "validation_failure (AssertionError (NotInScreen ids)) = True"
| "validation_failure (AssertionError (DifferentScreens screens)) = True"
| "validation_failure (AssertionError TargetNotFound) = False"
| "validation_failure AttributeError = False"
| "validation_failure KeyError = False"

text \<open>
  The server keeps its primary keys unique, and the well of every well-sample exists.
\<close>

definition wf_conn :: "conn \<Rightarrow> bool" where
  "wf_conn c \<longleftrightarrow>
     distinct (map plate_id (plates c)) \<and> distinct (map well_id (wells c))
     \<and> distinct (map ws_id (well_samples c)) \<and> distinct (map run_id (runs c))
     \<and> list_all (\<lambda>ws. ws_well ws \<in> set (map well_id (wells c))) (well_samples c)"

text \<open>The well-samples of a plate: those whose well is a well of the plate.\<close>

definition plate_samples :: "conn \<Rightarrow> int \<Rightarrow> well_sample list" where
  "plate_samples c pid =
     filter (\<lambda>ws. ws_well ws \<in> set (map well_id (listChildren_Plate c pid))) (well_samples c)"

text \<open>
  A well-sample is merged by a work list when it belongs to a run of the list and sits in
  a well of the plate that the list pairs the run with.
\<close>

definition merged :: "conn \<Rightarrow> plate_run list \<Rightarrow> well_sample \<Rightarrow> bool" where
  "merged c l ws \<longleftrightarrow>
     list_ex (\<lambda>x. case fst x of
                    None \<Rightarrow> False
                  | Some p \<Rightarrow> ws_run ws = Some (run_id (snd x))
                       \<and> ws_well ws \<in> set (map well_id (listChildren_Plate c (plate_id p)))) l"






subsection \<open>Example states\<close>

text \<open>
  Plate 1 with the wells (0,0) and (1,0), plate 2 with the wells (0,0) and (2,0) holding
  three well-samples; the screens of the two plates and the start time of the run are
  parameters. In \<open>example_conn\<close> the samples belong to run 5 of plate 2, in
  \<open>example_conn_no_runs\<close> there is no run.
\<close>

definition example_plate :: "int \<Rightarrow> string \<Rightarrow> int option \<Rightarrow> plate" where
  "example_plate i n s = \<lparr>plate_id = i, plate_name = n, plate_screen = s\<rparr>"

definition example_wells :: "well list" where
  "example_wells =
     [\<lparr>well_id = 1, well_plate = 1, well_row = 0, well_column = 0\<rparr>,
      \<lparr>well_id = 2, well_plate = 1, well_row = 1, well_column = 0\<rparr>,
      \<lparr>well_id = 3, well_plate = 2, well_row = 0, well_column = 0\<rparr>,
      \<lparr>well_id = 4, well_plate = 2, well_row = 2, well_column = 0\<rparr>]"

definition example_samples :: "int option \<Rightarrow> well_sample list" where
  "example_samples r =
     [\<lparr>ws_id = 1, ws_well = 3, ws_run = r\<rparr>,
      \<lparr>ws_id = 2, ws_well = 3, ws_run = r\<rparr>,
      \<lparr>ws_id = 3, ws_well = 4, ws_run = r\<rparr>]"

definition example_run :: "int option \<Rightarrow> run" where
  "example_run start = \<lparr>run_id = 5, run_name = ''R1'', run_plate = 2, run_start = start\<rparr>"

definition example_conn :: "int option \<Rightarrow> int option \<Rightarrow> int option \<Rightarrow> conn" where
  "example_conn screen1 screen2 start =
     \<lparr>plates = [example_plate 1 ''P1'' screen1, example_plate 2 ''P2'' screen2],
      wells = example_wells,
      well_samples = example_samples (Some 5),
      runs = [example_run start]\<rparr>"

definition example_conn_no_runs :: "int option \<Rightarrow> int option \<Rightarrow> conn" where
  "example_conn_no_runs screen1 screen2 =
     \<lparr>plates = [example_plate 1 ''P1'' screen1, example_plate 2 ''P2'' screen2],
      wells = example_wells,
      well_samples = example_samples None,
      runs = []\<rparr>"

subsection \<open>Invariants of the loops\<close>

text \<open>
  \<open>target_index c tid d\<close>: the dictionary \<open>d\<close> indexes the wells of plate \<open>tid\<close> by position
  and no two of these wells share a position. \<open>wells_added tid c c' k\<close>: the state \<open>c'\<close> is
  \<open>c\<close> with \<open>k\<close> new wells, all of plate \<open>tid\<close> and with new ids.
  \<open>index_range c tid d\<close>: every well in the dictionary \<open>d\<close> is a well of plate \<open>tid\<close>.
\<close>

definition target_index :: "conn \<Rightarrow> int \<Rightarrow> well_d \<Rightarrow> bool" where
  "target_index c tid d \<longleftrightarrow>
     distinct (map getWellPos (listChildren_Plate c tid))
     \<and> (\<forall>pos. d pos = None \<longleftrightarrow> pos \<notin> getWellPos ` set (listChildren_Plate c tid))
     \<and> (\<forall>pos w. d pos = Some w \<longrightarrow> w \<in> set (listChildren_Plate c tid) \<and> getWellPos w = pos)"

definition wells_added :: "int \<Rightarrow> conn \<Rightarrow> conn \<Rightarrow> nat \<Rightarrow> bool" where
  "wells_added tid c c' k \<longleftrightarrow>
     plates c' = plates c \<and> runs c' = runs c \<and> well_samples c' = well_samples c
     \<and> (\<exists>new. wells c' = wells c @ new \<and> length new = k \<and> (\<forall>w\<in>set new. well_plate w = tid)
           \<and> set (map well_id new) \<inter> set (map well_id (wells c)) = {}
           \<and> distinct (map well_id new))"


section \<open>Auxiliary facts\<close>

subsection \<open>Queries and set iteration\<close>

lemma getObject_Plate_id: "getObject_Plate c i = Some p \<Longrightarrow> plate_id p = i"
  by (auto simp: getObject_Plate_def find_Some_iff)

lemma set_iteration_Nil: "set_iteration so \<Longrightarrow> so [] = []"
proof -
  assume "set_iteration so"
  then have "set (so []) = set []" unfolding set_iteration_def by blast
  then show ?thesis by simp
qed

lemma set_iteration_set: "set_iteration so \<Longrightarrow> set (so xs) = set xs"
  unfolding set_iteration_def by blast

lemma set_iteration_distinct: "set_iteration so \<Longrightarrow> distinct (so xs)"
  unfolding set_iteration_def by blast

lemma set_iteration_remdups: "set_iteration remdups"
  by (simp add: set_iteration_def)

lemma removeAll_only: "set xs \<subseteq> {t} \<Longrightarrow> removeAll t xs = []"
  by (induction xs) auto

subsection \<open>Synthesized runs\<close>

lemma plates_synthesize_run [simp]: "plates (synthesize_run c p) = plates c"
  by (simp add: synthesize_run_def Let_def)

lemma wells_synthesize_run [simp]: "wells (synthesize_run c p) = wells c"
  by (simp add: synthesize_run_def Let_def)

lemma runs_synthesize_run:
  "runs (synthesize_run c p) =
     runs c @ [\<lparr>run_id = fresh_id (map run_id (runs c)), run_name = plate_name p,
                run_plate = plate_id p, run_start = None\<rparr>]"
  by (simp add: synthesize_run_def Let_def)

lemma ws_id_synthesize_run [simp]:
  "map ws_id (well_samples (synthesize_run c p)) = map ws_id (well_samples c)"
  by (simp add: synthesize_run_def Let_def comp_def if_distrib cong: if_cong)

lemma ws_well_synthesize_run [simp]:
  "map ws_well (well_samples (synthesize_run c p)) = map ws_well (well_samples c)"
  by (simp add: synthesize_run_def Let_def comp_def if_distrib cong: if_cong)

lemma getObject_Plate_synthesize_run [simp]:
  "getObject_Plate (synthesize_run c p) i = getObject_Plate c i"
  by (simp add: getObject_Plate_def)

lemma listChildren_Plate_synthesize_run [simp]:
  "listChildren_Plate (synthesize_run c p) i = listChildren_Plate c i"
  by (simp add: listChildren_Plate_def)

lemma ensure_runs_missing:
  "i \<in> set ids \<Longrightarrow> getObject_Plate c i = None \<Longrightarrow> fst (ensure_runs c ids) = Inl AttributeError"
proof (induction ids arbitrary: c)
  case Nil
  then show ?case by simp
next
  case (Cons j ids)
  show ?case
  proof (cases "getObject_Plate c j")
    case None
    then show ?thesis by simp
  next
    case (Some p)
    with Cons.prems have "i \<in> set ids" by auto
    with Cons.IH Cons.prems(2) Some show ?thesis by simp
  qed
qed

lemma ensure_runs_error: "fst (ensure_runs c ids) = Inl e \<Longrightarrow> e = AttributeError"
  by (induction ids arbitrary: c) (auto split: option.splits)

lemma ensure_runs_frame:
  "plates (snd (ensure_runs c ids)) = plates c
   \<and> wells (snd (ensure_runs c ids)) = wells c
   \<and> map ws_id (well_samples (snd (ensure_runs c ids))) = map ws_id (well_samples c)
   \<and> map ws_well (well_samples (snd (ensure_runs c ids))) = map ws_well (well_samples c)
   \<and> (\<exists>new. runs (snd (ensure_runs c ids)) = runs c @ new)"
proof (induction ids arbitrary: c)
  case Nil
  then show ?case by simp
next
  case (Cons j ids)
  show ?case
  proof (cases "getObject_Plate c j")
    case None
    then show ?thesis by simp
  next
    case (Some p)
    show ?thesis
    proof (cases "listPlateAcquisitions c j = []")
      case True
      with Some Cons.IH [of "synthesize_run c p"] show ?thesis
        by (auto simp: runs_synthesize_run)
    next
      case False
      with Some Cons.IH [of c] show ?thesis by simp
    qed
  qed
qed

lemma ensure_runs_unchanged:
  "\<forall>i\<in>set ids. listPlateAcquisitions c i \<noteq> [] \<Longrightarrow> snd (ensure_runs c ids) = c"
  by (induction ids arbitrary: c) (auto split: option.splits)

subsection \<open>Resolution\<close>

lemma resolve_only_target:
  assumes "set_iteration so" "set ids \<subseteq> {tid}"
  shows "resolve_plate_run_l so c tid ids ''Plate'' = (Inr [], c)"
  using assms
  by (simp add: resolve_plate_run_l_def removeAll_only set_iteration_Nil getObjects_Plate_def)

lemma ensure_runs_error': "ensure_runs c ids = (Inl e, c') \<Longrightarrow> e = AttributeError"
  using ensure_runs_error [of c ids e] by simp

lemma resolve_raises: "resolve_plate_run_l so c tid ids stype = (Inl e, c') \<Longrightarrow> e = AttributeError"
  by (auto simp: resolve_plate_run_l_def Let_def split: if_splits prod.splits sum.splits
      dest: ensure_runs_error')

subsection \<open>Ordering\<close>

lemma sorted_py_Nil [simp]: "sorted_py key [] = Inr []"
  by (simp add: sorted_py_def)

lemma sort_plate_run_l_Nil [simp]: "sort_plate_run_l sort_way [] = Inr []"
  by (simp add: sort_plate_run_l_def)

lemma keys_py_error: "keys_py key l = Inl e \<Longrightarrow> \<exists>x\<in>set l. key x = Inl e"
  by (induction l) (auto split: sum.splits)

lemma sort_plate_run_l_error:
  "sort_plate_run_l sw l = Inl e \<Longrightarrow> e = AttributeError \<or> e = AssertionError NoStartTime"
  by (auto simp: sort_plate_run_l_def sorted_py_def key_plate_run_name_def key_run_name_def
      key_start_time_def Let_def split: if_splits sum.splits option.splits dest!: keys_py_error)

lemma keys_py_start_time: "l \<noteq> [] \<Longrightarrow> keys_py key_start_time l = Inl AttributeError"
  by (cases l) (simp_all add: key_start_time_def)

lemma sort_start_time_nonempty:
  "l \<noteq> [] \<Longrightarrow> None \<notin> set (map (\<lambda>x. run_start (snd x)) l)
    \<Longrightarrow> sort_plate_run_l ''Acquisition start time'' l = Inl AttributeError"
  by (simp add: sort_plate_run_l_def sorted_py_def keys_py_start_time)

lemma sort_start_time_missing:
  "None \<in> set (map (\<lambda>x. run_start (snd x)) l)
    \<Longrightarrow> sort_plate_run_l ''Acquisition start time'' l = Inl (AssertionError NoStartTime)"
  by (simp add: sort_plate_run_l_def)

subsection \<open>Screen safety\<close>

lemma screen_scan_Some:
  "screen_scan (map Some ps) (sl, pl) =
     Inr (sl @ map (the \<circ> plate_screen) (filter (\<lambda>p. plate_screen p \<noteq> None) ps),
          pl @ map plate_id (filter (\<lambda>p. plate_screen p = None) ps))"
  by (induction ps arbitrary: sl pl) (auto split: option.splits)

lemma screen_scan_target:
  "plate_screen t = None \<Longrightarrow>
     screen_scan (ps @ [Some t]) (sl, pl) = Inl AttributeError
     \<or> (\<exists>sl' pl'. screen_scan (ps @ [Some t]) (sl, pl) = Inr (sl', pl') \<and> plate_id t \<in> set pl')"
proof (induction ps arbitrary: sl pl)
  case Nil
  then show ?case by simp
next
  case (Cons a ps)
  then show ?case by (cases a) (auto split: option.splits)
qed

lemma screen_safety_error:
  "screen_safety l t = Inl e \<Longrightarrow> e = AttributeError \<or> validation_failure e"
proof -
  have scan: "screen_scan ps acc = Inl e' \<Longrightarrow> e' = AttributeError" for ps acc e'
    by (induction ps acc rule: screen_scan.induct) (auto split: option.splits)
  assume "screen_safety l t = Inl e"
  then show ?thesis
    by (auto simp: screen_safety_def split: sum.splits prod.splits if_splits dest: scan)
qed

lemma screen_safety_target_fails:
  assumes "plate_screen t = None"
  shows "screen_safety l t = Inl AttributeError
     \<or> (\<exists>ids. screen_safety l t = Inl (AssertionError (NotInScreen ids)) \<and> plate_id t \<in> set ids)"
proof -
  from screen_scan_target [OF assms, of "map fst l" "[]" "[]"]
  consider "screen_scan (map fst l @ [Some t]) ([], []) = Inl AttributeError"
    | sl' pl' where "screen_scan (map fst l @ [Some t]) ([], []) = Inr (sl', pl')"
        "plate_id t \<in> set pl'"
    by blast
  then show ?thesis
  proof cases
    case 1
    then show ?thesis by (simp add: screen_safety_def)
  next
    case 2
    then have "pl' \<noteq> []" by auto
    with 2 have "screen_safety l t = Inl (AssertionError (NotInScreen pl'))"
      by (simp add: screen_safety_def)
    with 2 show ?thesis by blast
  qed
qed

lemma card_set_single: "card (set xs) = 1 \<longleftrightarrow> (\<exists>s. set xs = {s})"
  by (simp add: card_1_singleton_iff)

subsection \<open>Errors of the populating and folding loops\<close>

lemma populate_target_error:
  "populate_target tid ps acc = (Inl e, c') \<Longrightarrow> e = AttributeError"
  by (induction tid ps acc rule: populate_target.induct) (auto split: prod.splits)

lemma moved_samples_error: "moved_samples rid w ss = Inl e \<Longrightarrow> e = AttributeError"
  by (induction ss) (auto split: option.splits sum.splits)

lemma moved_wells_error: "moved_wells c d rid ws = Inl e \<Longrightarrow> e = AttributeError \<or> e = KeyError"
  by (induction ws) (auto split: option.splits sum.splits dest: moved_samples_error)

lemma fold_run_error: "fold_run c tid d x = (Inl e, c') \<Longrightarrow> e = AttributeError \<or> e = KeyError"
  by (auto simp: fold_run_def split: option.splits sum.splits dest: moved_wells_error)

lemma fold_runs_error:
  "fold_runs xs acc = (Inl e, c') \<Longrightarrow> e = AttributeError \<or> e = KeyError"
proof (induction xs acc rule: fold_runs.induct)
  case (1 c target_plate d count_well_sample)
  then show ?case by simp
next
  case (2 x xs c target_plate d count_well_sample)
  show ?case
  proof (cases "fold_run c (plate_id target_plate) d x")
    case (Pair r c'')
    show ?thesis
    proof (cases r)
      case (Inl e')
      with Pair "2.prems" show ?thesis by (auto dest: fold_run_error)
    next
      case (Inr k)
      show ?thesis
      proof (cases "getObject_Plate c'' (plate_id target_plate)")
        case None
        with Pair Inr "2.prems" show ?thesis by simp
      next
        case (Some t')
        with Pair Inr "2.prems" "2.IH" [OF Pair [symmetric] Inr Some] show ?thesis by simp
      qed
    qed
  qed
qed

subsection \<open>What resolving the work list leaves alone\<close>

lemma resolve_frame:
  "plates (snd (resolve_plate_run_l so c tid ids stype)) = plates c
   \<and> wells (snd (resolve_plate_run_l so c tid ids stype)) = wells c
   \<and> map ws_id (well_samples (snd (resolve_plate_run_l so c tid ids stype)))
       = map ws_id (well_samples c)
   \<and> map ws_well (well_samples (snd (resolve_plate_run_l so c tid ids stype)))
       = map ws_well (well_samples c)
   \<and> (\<exists>new. runs (snd (resolve_plate_run_l so c tid ids stype)) = runs c @ new)"
proof (cases "stype = ''Plate''")
  case True
  obtain r c' where e: "ensure_runs c (so (removeAll tid ids)) = (r, c')"
    by (cases "ensure_runs c (so (removeAll tid ids))")
  then have s: "snd (resolve_plate_run_l so c tid ids stype) = c'"
    using True by (cases r) (simp_all add: resolve_plate_run_l_def)
  from ensure_runs_frame [of c "so (removeAll tid ids)"] e s show ?thesis by simp
next
  case False
  then show ?thesis by (simp add: resolve_plate_run_l_def)
qed

lemma resolve_unchanged:
  assumes "set_iteration so"
    and "stype \<noteq> ''Plate'' \<or> (\<forall>i\<in>set ids. i \<noteq> tid \<longrightarrow> listPlateAcquisitions c i \<noteq> [])"
  shows "snd (resolve_plate_run_l so c tid ids stype) = c"
proof (cases "stype = ''Plate''")
  case True
  with assms have "\<forall>i\<in>set (so (removeAll tid ids)). listPlateAcquisitions c i \<noteq> []"
    by (simp add: set_iteration_set)
  then have "snd (ensure_runs c (so (removeAll tid ids))) = c"
    by (rule ensure_runs_unchanged)
  then show ?thesis
    using True
    by (cases "ensure_runs c (so (removeAll tid ids))")
      (auto simp: resolve_plate_run_l_def split: sum.splits)
next
  case False
  then show ?thesis by (simp add: resolve_plate_run_l_def)
qed

subsection \<open>The outcomes of the merge\<close>

lemma combine_plates_cases [consumes 0, case_names not_found resolve_error sort_error screen_error
    populate_error fold_error ok]:
  obtains
    (not_found) "getObject_Plate c tid = None"
      "combine_plates so c tid sids stype sw ss = (Inl (AssertionError TargetNotFound), c)"
  | (resolve_error) t e c1 where "getObject_Plate c tid = Some t"
      "resolve_plate_run_l so c tid (ids_list sids) stype = (Inl e, c1)"
      "combine_plates so c tid sids stype sw ss = (Inl e, c1)"
  | (sort_error) t l c1 e where "getObject_Plate c tid = Some t"
      "resolve_plate_run_l so c tid (ids_list sids) stype = (Inr l, c1)"
      "sort_plate_run_l sw l = Inl e"
      "combine_plates so c tid sids stype sw ss = (Inl e, c1)"
  | (screen_error) t l c1 wl e where "getObject_Plate c tid = Some t"
      "resolve_plate_run_l so c tid (ids_list sids) stype = (Inr l, c1)"
      "sort_plate_run_l sw l = Inr wl"
      "ss" "screen_safety wl t = Inl e"
      "combine_plates so c tid sids stype sw ss = (Inl e, c1)"
  | (populate_error) t l c1 wl e c2 where "getObject_Plate c tid = Some t"
      "resolve_plate_run_l so c tid (ids_list sids) stype = (Inr l, c1)"
      "sort_plate_run_l sw l = Inr wl"
      "ss \<longrightarrow> screen_safety wl t = Inr ()"
      "populate_target (plate_id t) (map fst wl)
         (c1, index_wells (listChildren_Plate c1 (plate_id t)), 0) = (Inl e, c2)"
      "combine_plates so c tid sids stype sw ss = (Inl e, c2)"
  | (fold_error) t l c1 wl d k c2 e c3 where "getObject_Plate c tid = Some t"
      "resolve_plate_run_l so c tid (ids_list sids) stype = (Inr l, c1)"
      "sort_plate_run_l sw l = Inr wl"
      "ss \<longrightarrow> screen_safety wl t = Inr ()"
      "populate_target (plate_id t) (map fst wl)
         (c1, index_wells (listChildren_Plate c1 (plate_id t)), 0) = (Inr (d, k), c2)"
      "fold_runs wl (c2, t, d, 0) = (Inl e, c3)"
      "combine_plates so c tid sids stype sw ss = (Inl e, c3)"
  | (ok) t l c1 wl d k c2 t' n c3 where "getObject_Plate c tid = Some t"
      "resolve_plate_run_l so c tid (ids_list sids) stype = (Inr l, c1)"
      "sort_plate_run_l sw l = Inr wl"
      "ss \<longrightarrow> screen_safety wl t = Inr ()"
      "populate_target (plate_id t) (map fst wl)
         (c1, index_wells (listChildren_Plate c1 (plate_id t)), 0) = (Inr (d, k), c2)"
      "fold_runs wl (c2, t, d, 0) = (Inr (t', n), c3)"
      "combine_plates so c tid sids stype sw ss
         = (Inr (message n (length wl) (plate_id t') k, t'), c3)"
proof (cases "getObject_Plate c tid")
  case None
  then show ?thesis by (intro not_found) (simp_all add: combine_plates_def)
next
  case (Some t)
  obtain r c1 where res: "resolve_plate_run_l so c tid (ids_list sids) stype = (r, c1)"
    by (cases "resolve_plate_run_l so c tid (ids_list sids) stype")
  show ?thesis
  proof (cases r)
    case (Inl e)
    with Some res show ?thesis by (intro resolve_error) (simp_all add: combine_plates_def)
  next
    case (Inr l)
    note l = res [unfolded this]
    show ?thesis
    proof (cases "sort_plate_run_l sw l")
      case (Inl e)
      with Some l show ?thesis by (intro sort_error) (simp_all add: combine_plates_def)
    next
      case (Inr wl)
      note wl = this
      show ?thesis
      proof (cases "ss \<and> (\<exists>e. screen_safety wl t = Inl e)")
        case True
        then obtain e where "ss" "screen_safety wl t = Inl e" by blast
        with Some l wl show ?thesis by (intro screen_error) (simp_all add: combine_plates_def)
      next
        case False
        then have scr: "ss \<longrightarrow> screen_safety wl t = Inr ()"
          by (cases "screen_safety wl t") auto
        then have scr': "(if ss then screen_safety wl t else Inr ()) = Inr ()" by simp
        obtain r2 c2 where pop: "populate_target (plate_id t) (map fst wl)
             (c1, index_wells (listChildren_Plate c1 (plate_id t)), 0) = (r2, c2)"
          by (cases "populate_target (plate_id t) (map fst wl)
             (c1, index_wells (listChildren_Plate c1 (plate_id t)), 0)")
        show ?thesis
        proof (cases r2)
          case (Inl e)
          with Some l wl scr scr' pop show ?thesis
            by (intro populate_error) (simp_all add: combine_plates_def)
        next
          case (Inr dk)
          obtain d k where dk: "dk = (d, k)" by (cases dk)
          note pop' = pop [unfolded Inr dk]
          obtain r3 c3 where f: "fold_runs wl (c2, t, d, 0) = (r3, c3)"
            by (cases "fold_runs wl (c2, t, d, 0)")
          show ?thesis
          proof (cases r3)
            case (Inl e)
            with Some l wl scr scr' pop' f show ?thesis
              by (intro fold_error) (simp_all add: combine_plates_def)
          next
            case (Inr tn)
            obtain t' n where tn: "tn = (t', n)" by (cases tn)
            with Inr Some l wl scr scr' pop' f show ?thesis
              by (intro ok) (simp_all add: combine_plates_def)
          qed
        qed
      qed
    qed
  qed
qed

lemma combine_plates_validation:
  assumes "combine_plates so c tid sids stype sw ss = (Inl e, c')" and "validation_failure e"
  shows "c' = snd (resolve_plate_run_l so c tid (ids_list sids) stype)"
proof (cases rule: combine_plates_cases [where c = c and tid = tid and so = so and sids = sids
      and stype = stype and sw = sw and ss = ss])
  case not_found
  with assms show ?thesis by auto
next
  case (resolve_error t e c1)
  with assms show ?thesis by (auto dest: resolve_raises)
next
  case (sort_error t l c1 e)
  with assms show ?thesis by auto
next
  case (screen_error t l c1 wl e)
  with assms show ?thesis by auto
next
  case (populate_error t l c1 wl e c2)
  with assms show ?thesis by (auto dest: populate_target_error)
next
  case (fold_error t l c1 wl d k c2 e c3)
  with assms show ?thesis by (auto dest: fold_runs_error)
next
  case (ok t l c1 wl d k c2 t' n c3)
  with assms show ?thesis by auto
qed

lemma screen_safety_resolved:
  assumes "map fst plate_run_l = map Some ps"
  shows "screen_safety plate_run_l target_plate =
    (if \<exists>p\<in>set (ps @ [target_plate]). plate_screen p = None
     then Inl (AssertionError (NotInScreen
            (map plate_id (filter (\<lambda>p. plate_screen p = None) (ps @ [target_plate])))))
     else if \<exists>p\<in>set ps. plate_screen p \<noteq> plate_screen target_plate
     then Inl (AssertionError (DifferentScreens
            (set (map (the \<circ> plate_screen) (ps @ [target_plate])))))
     else Inr ())"
proof -
  let ?all = "ps @ [target_plate]"
  have scan: "screen_scan (map fst plate_run_l @ [Some target_plate]) ([], []) =
     Inr (map (the \<circ> plate_screen) (filter (\<lambda>p. plate_screen p \<noteq> None) ?all),
          map plate_id (filter (\<lambda>p. plate_screen p = None) ?all))"
    using screen_scan_Some [of ?all "[]" "[]"] assms by simp
  show ?thesis
  proof (cases "\<exists>p\<in>set ?all. plate_screen p = None")
    case True
    then have "filter (\<lambda>p. plate_screen p = None) ?all \<noteq> []"
      by (simp only: filter_empty_conv) blast
    with True scan show ?thesis by (simp add: screen_safety_def)
  next
    case False
    then have f1: "filter (\<lambda>p. plate_screen p = None) ?all = []"
      and f2: "filter (\<lambda>p. plate_screen p \<noteq> None) ?all = ?all"
      by (auto simp: filter_empty_conv filter_id_conv)
    have "(\<exists>s. set (map (the \<circ> plate_screen) ?all) = {s})
        \<longleftrightarrow> \<not> (\<exists>p\<in>set ps. plate_screen p \<noteq> plate_screen target_plate)"
    proof
      assume "\<exists>s. set (map (the \<circ> plate_screen) ?all) = {s}"
      then obtain s where s: "set (map (the \<circ> plate_screen) ?all) = {s}" ..
      have "plate_screen p = Some s" if "p \<in> set ?all" for p
      proof -
        from that have "(the \<circ> plate_screen) p \<in> (the \<circ> plate_screen) ` set ?all"
          by (rule imageI)
        then have "the (plate_screen p) \<in> set (map (the \<circ> plate_screen) ?all)"
          by (simp only: set_map comp_apply)
        with s have "the (plate_screen p) \<in> {s}" by (simp only:)
        then have "the (plate_screen p) = s" by (simp only: singleton_iff)
        moreover have "plate_screen p \<noteq> None"
        proof
          assume "plate_screen p = None"
          with that have "\<exists>p\<in>set ?all. plate_screen p = None" by (rule rev_bexI)
          with False show "False" by (rule notE)
        qed
        ultimately show ?thesis by auto
      qed
      then show "\<not> (\<exists>p\<in>set ps. plate_screen p \<noteq> plate_screen target_plate)" by simp
    next
      assume "\<not> (\<exists>p\<in>set ps. plate_screen p \<noteq> plate_screen target_plate)"
      then have "set (map (the \<circ> plate_screen) ?all) = {the (plate_screen target_plate)}"
        by auto
      then show "\<exists>s. set (map (the \<circ> plate_screen) ?all) = {s}" ..
    qed
    then have "card (set (map (the \<circ> plate_screen) ?all)) = 1
        \<longleftrightarrow> \<not> (\<exists>p\<in>set ps. plate_screen p \<noteq> plate_screen target_plate)"
      by (simp only: card_set_single)
    with False scan f1 f2 show ?thesis
      by (simp add: screen_safety_def del: map_append filter_append)
  qed
qed

lemma combine_plates_only_target:
  assumes "set_iteration set_order" and "set (ids_list source_ids) = {target_plate_id}"
  shows "combine_plates set_order c target_plate_id source_ids ''Plate'' sort_way same_screen =
     (case getObject_Plate c target_plate_id of
        None \<Rightarrow> (Inl (AssertionError TargetNotFound), c)
      | Some target_plate \<Rightarrow>
          if same_screen \<and> plate_screen target_plate = None
          then (Inl (AssertionError (NotInScreen [target_plate_id])), c)
          else (Inr (message 0 0 target_plate_id 0, target_plate), c))"
proof (cases "getObject_Plate c target_plate_id")
  case None
  then show ?thesis by (simp add: combine_plates_def)
next
  case (Some t)
  have r: "resolve_plate_run_l set_order c target_plate_id (ids_list source_ids) ''Plate'' = (Inr [], c)"
    using assms by (intro resolve_only_target) auto
  have i: "plate_id t = target_plate_id" using Some by (rule getObject_Plate_id)
  show ?thesis
    using Some r i
    by (cases "plate_screen t") (simp_all add: combine_plates_def screen_safety_def)
qed

subsection \<open>Fresh ids\<close>

lemma fold_max_ge: "a \<le> fold max ids a \<and> (\<forall>i\<in>set ids. i \<le> fold max ids (a::int))"
proof (induction ids arbitrary: a)
  case Nil
  show ?case by simp
next
  case (Cons j ids)
  from Cons [of "max j a"] show ?case by auto
qed

lemma fresh_id_notin: "fresh_id ids \<notin> set ids"
proof
  assume "fresh_id ids \<in> set ids"
  with fold_max_ge [of 0 ids] have "fresh_id ids \<le> fold max ids 0" by blast
  then show False by (simp add: fresh_id_def)
qed

subsection \<open>The index of the target wells\<close>

lemma fold_index_None:
  "fold (\<lambda>well d. d(getWellPos well \<mapsto> well)) ws d0 pos = None
     \<longleftrightarrow> d0 pos = None \<and> pos \<notin> getWellPos ` set ws"
  by (induction ws arbitrary: d0) auto

lemma fold_index_Some:
  "fold (\<lambda>well d. d(getWellPos well \<mapsto> well)) ws d0 pos = Some w
     \<Longrightarrow> (w \<in> set ws \<and> getWellPos w = pos) \<or> d0 pos = Some w"
proof (induction ws arbitrary: d0)
  case Nil
  then show ?case by simp
next
  case (Cons a ws)
  from Cons.prems have "fold (\<lambda>well d. d(getWellPos well \<mapsto> well)) ws (d0(getWellPos a \<mapsto> a)) pos
      = Some w" by (simp only: fold.simps o_apply)
  from Cons.IH [OF this] consider "w \<in> set ws \<and> getWellPos w = pos"
    | "(d0(getWellPos a \<mapsto> a)) pos = Some w" by blast
  then show ?case
  proof cases
    case 1
    then show ?thesis by simp
  next
    case 2
    show ?thesis
    proof (cases "pos = getWellPos a")
      case True
      with 2 have "w = a" by simp
      with True show ?thesis by simp
    next
      case False
      with 2 have "d0 pos = Some w" by simp
      then show ?thesis by simp
    qed
  qed
qed

lemma index_wells_None: "index_wells ws pos = None \<longleftrightarrow> pos \<notin> getWellPos ` set ws"
  by (simp add: index_wells_def fold_index_None)

lemma index_wells_Some: "index_wells ws pos = Some w \<Longrightarrow> w \<in> set ws \<and> getWellPos w = pos"
  using fold_index_Some [of ws Map.empty pos w] by (simp add: index_wells_def)

lemma target_index_index_wells:
  "distinct (map getWellPos (listChildren_Plate c tid))
    \<Longrightarrow> target_index c tid (index_wells (listChildren_Plate c tid))"
  unfolding target_index_def using index_wells_None index_wells_Some by blast

lemma wells_added_refl: "wells_added tid c c 0"
  by (simp add: wells_added_def)

lemma wells_added_trans:
  assumes "wells_added tid c c' j" "wells_added tid c' c'' k"
  shows "wells_added tid c c'' (j + k)"
proof -
  from assms(1) obtain n1 where 1: "wells c' = wells c @ n1" "length n1 = j"
    "\<forall>w\<in>set n1. well_plate w = tid"
    "set (map well_id n1) \<inter> set (map well_id (wells c)) = {}" "distinct (map well_id n1)"
    unfolding wells_added_def by blast
  from assms(2) obtain n2 where 2: "wells c'' = wells c' @ n2" "length n2 = k"
    "\<forall>w\<in>set n2. well_plate w = tid"
    "set (map well_id n2) \<inter> set (map well_id (wells c')) = {}" "distinct (map well_id n2)"
    unfolding wells_added_def by blast
  have "wells c'' = wells c @ (n1 @ n2)" using 1 2 by simp
  moreover have "length (n1 @ n2) = j + k" using 1 2 by simp
  moreover have "\<forall>w\<in>set (n1 @ n2). well_plate w = tid" using 1 2 by auto
  moreover have "set (map well_id (n1 @ n2)) \<inter> set (map well_id (wells c)) = {}"
    using 1 2 by auto
  moreover have "distinct (map well_id (n1 @ n2))" using 1 2 by auto
  moreover have "plates c'' = plates c \<and> runs c'' = runs c \<and> well_samples c'' = well_samples c"
    using assms unfolding wells_added_def by simp
  ultimately show ?thesis unfolding wells_added_def by blast
qed

lemma create_well_step:
  assumes "target_index c tid d" and "d (getWellPos well) = None"
  defines "new_well \<equiv> \<lparr>well_id = fresh_id (map well_id (wells c)), well_plate = tid,
                          well_row = well_row well, well_column = well_column well\<rparr>"
  shows "target_index (c\<lparr>wells := wells c @ [new_well]\<rparr>) tid (d(getWellPos well \<mapsto> new_well))"
    and "wells_added tid c (c\<lparr>wells := wells c @ [new_well]\<rparr>) 1"
proof -
  have pos: "getWellPos new_well = getWellPos well"
    by (simp add: new_well_def getWellPos_def)
  have lc: "listChildren_Plate (c\<lparr>wells := wells c @ [new_well]\<rparr>) tid
      = listChildren_Plate c tid @ [new_well]"
    by (simp add: listChildren_Plate_def new_well_def)
  from assms(1,2) have notin: "getWellPos well \<notin> getWellPos ` set (listChildren_Plate c tid)"
    unfolding target_index_def by blast
  show "target_index (c\<lparr>wells := wells c @ [new_well]\<rparr>) tid (d(getWellPos well \<mapsto> new_well))"
    unfolding target_index_def lc
  proof (intro conjI allI impI)
    show "distinct (map getWellPos (listChildren_Plate c tid @ [new_well]))"
      using assms(1) notin pos unfolding target_index_def by simp
  next
    fix p
    from assms(1) have "d p = None \<longleftrightarrow> p \<notin> getWellPos ` set (listChildren_Plate c tid)"
      unfolding target_index_def by blast
    then show "((d(getWellPos well \<mapsto> new_well)) p = None)
        = (p \<notin> getWellPos ` set (listChildren_Plate c tid @ [new_well]))"
      using pos by (cases "p = getWellPos well") simp_all
  next
    fix p w
    assume a: "(d(getWellPos well \<mapsto> new_well)) p = Some w"
    show "w \<in> set (listChildren_Plate c tid @ [new_well])"
    proof (cases "p = getWellPos well")
      case True
      with a show ?thesis by simp
    next
      case False
      with a have "d p = Some w" by simp
      with assms(1) have "w \<in> set (listChildren_Plate c tid)"
        unfolding target_index_def by blast
      then show ?thesis by simp
    qed
  next
    fix p w
    assume a: "(d(getWellPos well \<mapsto> new_well)) p = Some w"
    show "getWellPos w = p"
    proof (cases "p = getWellPos well")
      case True
      with a pos show ?thesis by simp
    next
      case False
      with a have "d p = Some w" by simp
      with assms(1) show ?thesis unfolding target_index_def by blast
    qed
  qed
  have "well_id new_well \<notin> set (map well_id (wells c))"
    using fresh_id_notin [of "map well_id (wells c)"] by (simp add: new_well_def)
  then show "wells_added tid c (c\<lparr>wells := wells c @ [new_well]\<rparr>) 1"
    unfolding wells_added_def by (simp add: new_well_def)
qed

lemma create_wells_inv:
  assumes "create_wells tid ws (c, d, n) = (c', d', n')" and "target_index c tid d"
  shows "target_index c' tid d' \<and> (\<exists>k. wells_added tid c c' k \<and> n' = n + k)"
  using assms
proof (induction ws arbitrary: c d n)
  case Nil
  then show ?case using wells_added_refl [of tid c] by auto
next
  case (Cons well ws)
  show ?case
  proof (cases "d (getWellPos well) = None")
    case True
    let ?new = "\<lparr>well_id = fresh_id (map well_id (wells c)), well_plate = tid,
                          well_row = well_row well, well_column = well_column well\<rparr>"
    let ?c = "c\<lparr>wells := wells c @ [?new]\<rparr>"
    let ?d = "d(getWellPos well \<mapsto> ?new)"
    from Cons.prems(1) True have rec: "create_wells tid ws (?c, ?d, n + 1) = (c', d', n')"
      by (simp add: Let_def)
    note step = create_well_step [OF Cons.prems(2) True]
    from Cons.IH [OF rec step(1)] obtain k where
      k: "target_index c' tid d'" "wells_added tid ?c c' k" "n' = n + 1 + k" by auto
    from wells_added_trans [OF step(2) k(2)] k show ?thesis by auto
  next
    case False
    with Cons.prems(1) have rec: "create_wells tid ws (c, d, n) = (c', d', n')" by simp
    from Cons.IH [OF rec Cons.prems(2)] show ?thesis .
  qed
qed

lemma populate_target_inv:
  assumes "populate_target tid ps (c, d, n) = (r, c')" and "target_index c tid d"
  shows "distinct (map getWellPos (listChildren_Plate c' tid))
    \<and> (\<exists>k. wells_added tid c c' k \<and> (\<forall>d' n'. r = Inr (d', n') \<longrightarrow> target_index c' tid d' \<and> n' = n + k))"
  using assms
proof (induction ps arbitrary: c d n)
  case Nil
  then show ?case using wells_added_refl [of tid c] by (auto simp: target_index_def)
next
  case (Cons a ps)
  show ?case
  proof (cases a)
    case None
    with Cons.prems show ?thesis using wells_added_refl [of tid c]
      by (auto simp: target_index_def)
  next
    case (Some plate)
    obtain c1 d1 n1 where cw:
      "create_wells tid (listChildren_Plate c (plate_id plate)) (c, d, n) = (c1, d1, n1)"
      by (cases "create_wells tid (listChildren_Plate c (plate_id plate)) (c, d, n)")
    from create_wells_inv [OF cw Cons.prems(2)] obtain j where
      j: "target_index c1 tid d1" "wells_added tid c c1 j" "n1 = n + j" by auto
    from Cons.prems(1) Some cw have rec: "populate_target tid ps (c1, d1, n1) = (r, c')" by simp
    from Cons.IH [OF rec j(1)] obtain k where
      k: "distinct (map getWellPos (listChildren_Plate c' tid))" "wells_added tid c1 c' k"
        "\<forall>d' n'. r = Inr (d', n') \<longrightarrow> target_index c' tid d' \<and> n' = n1 + k" by auto
    from wells_added_trans [OF j(2) k(2)] k j(3) show ?thesis by (auto simp: add.assoc)
  qed
qed

subsection \<open>What folding a run leaves alone\<close>

lemma save_moves_ids [simp]: "map ws_id (save_moves ms S) = map ws_id S"
  by (induction S) (auto simp: save_moves_def split: option.splits)

lemma save_moves_runs [simp]: "map ws_run (save_moves ms S) = map ws_run S"
  by (induction S) (auto simp: save_moves_def split: option.splits)

lemma save_run_ids [simp]: "map run_id (save_run rid tid R) = map run_id R"
  by (induction R) (auto simp: save_run_def)

lemma fold_run_frame:
  assumes "fold_run c tid d x = (r, c')"
  shows "plates c' = plates c \<and> wells c' = wells c
    \<and> map ws_id (well_samples c') = map ws_id (well_samples c)
    \<and> map ws_run (well_samples c') = map ws_run (well_samples c)
    \<and> map run_id (runs c') = map run_id (runs c)"
  using assms by (auto simp: fold_run_def split: option.splits sum.splits)

lemma getObject_Plate_cong: "plates c' = plates c \<Longrightarrow> getObject_Plate c' i = getObject_Plate c i"
  by (simp add: getObject_Plate_def)

lemma listChildren_Plate_cong:
  "wells c' = wells c \<Longrightarrow> listChildren_Plate c' i = listChildren_Plate c i"
  by (simp add: listChildren_Plate_def)

lemma fold_runs_frame:
  assumes "fold_runs xs (c, t, d, n) = (r, c')"
  shows "plates c' = plates c \<and> wells c' = wells c
    \<and> map ws_id (well_samples c') = map ws_id (well_samples c)
    \<and> map ws_run (well_samples c') = map ws_run (well_samples c)
    \<and> map run_id (runs c') = map run_id (runs c)"
  using assms
proof (induction xs arbitrary: c t d n)
  case Nil
  then show ?case by simp
next
  case (Cons x xs)
  obtain r1 c1 where fr: "fold_run c (plate_id t) d x = (r1, c1)"
    by (cases "fold_run c (plate_id t) d x")
  note f1 = fold_run_frame [OF fr]
  show ?case
  proof (cases r1)
    case (Inl e)
    with Cons.prems fr f1 show ?thesis by auto
  next
    case (Inr k)
    show ?thesis
    proof (cases "getObject_Plate c1 (plate_id t)")
      case None
      with Cons.prems fr Inr f1 show ?thesis by auto
    next
      case (Some t')
      with Cons.prems fr Inr have "fold_runs xs
           (c1, t', index_wells (listChildren_Plate c1 (plate_id t')), n + k) = (r, c')"
        by simp
      from Cons.IH [OF this] f1 show ?thesis by simp
    qed
  qed
qed

lemma resolve_wells: "resolve_plate_run_l so c tid ids stype = (r, c1) \<Longrightarrow> wells c1 = wells c"
  using resolve_frame [of so c tid ids stype] by simp

lemma wells_added_target:
  assumes "wells_added tid c c' k"
    and "distinct (map getWellPos (listChildren_Plate c' tid))"
  shows "\<exists>new. wells c' = wells c @ new \<and> length new = k
     \<and> (\<forall>w\<in>set new. well_plate w = tid
           \<and> getWellPos w \<notin> getWellPos ` set (listChildren_Plate c tid))"
proof -
  from assms(1) obtain new where new: "wells c' = wells c @ new" "length new = k"
    "\<forall>w\<in>set new. well_plate w = tid"
    unfolding wells_added_def by blast
  then have "listChildren_Plate c' tid = listChildren_Plate c tid @ new"
    by (simp add: listChildren_Plate_def filter_id_conv)
  with assms(2) have "getWellPos ` set (listChildren_Plate c tid) \<inter> getWellPos ` set new = {}"
    by simp
  with new show ?thesis by blast
qed

lemma combine_plates_wells:
  fixes so sids stype sw ss
  assumes "distinct (map getWellPos (listChildren_Plate c tid))"
  defines "c' \<equiv> snd (combine_plates so c tid sids stype sw ss)"
  shows "distinct (map getWellPos (listChildren_Plate c' tid))
    \<and> (\<exists>new. wells c' = wells c @ new
         \<and> (\<forall>w\<in>set new. well_plate w = tid
               \<and> getWellPos w \<notin> getWellPos ` set (listChildren_Plate c tid)))"
proof -
  have same: "?thesis" if "wells c' = wells c"
    using that assms(1) by (simp add: listChildren_Plate_def)
  have pop: "?thesis"
    if t: "getObject_Plate c tid = Some t"
      and r: "resolve_plate_run_l so c tid (ids_list sids) stype = (Inr l, c1)"
      and p: "populate_target (plate_id t) (map fst wl)
         (c1, index_wells (listChildren_Plate c1 (plate_id t)), 0) = (r2, c2)"
      and w: "wells c' = wells c2"
    for t l c1 wl r2 c2
  proof -
    have id: "plate_id t = tid" using t by (rule getObject_Plate_id)
    have w1: "wells c1 = wells c" using r by (rule resolve_wells)
    then have lc: "listChildren_Plate c1 tid = listChildren_Plate c tid"
      by (rule listChildren_Plate_cong)
    have "target_index c1 tid (index_wells (listChildren_Plate c1 tid))"
      using assms(1) lc by (intro target_index_index_wells) simp
    from populate_target_inv [OF p [unfolded id] this] obtain k where
      k: "distinct (map getWellPos (listChildren_Plate c2 tid))" "wells_added tid c1 c2 k"
      by blast
    from wells_added_target [OF k(2) k(1)] obtain new where
      new: "wells c2 = wells c1 @ new"
        "\<forall>w\<in>set new. well_plate w = tid
           \<and> getWellPos w \<notin> getWellPos ` set (listChildren_Plate c1 tid)"
      by blast
    have "distinct (map getWellPos (listChildren_Plate c' tid))"
      using k(1) listChildren_Plate_cong [OF w] by simp
    moreover have "wells c' = wells c @ new" using new(1) w w1 by simp
    ultimately show ?thesis using new(2) unfolding lc by blast
  qed
  show ?thesis
  proof (cases rule: combine_plates_cases [where c = c and tid = tid and so = so and sids = sids
      and stype = stype and sw = sw and ss = ss])
    case not_found
    then show ?thesis by (intro same) (simp add: c'_def)
  next
    case (resolve_error t e c1)
    then show ?thesis using resolve_wells [OF resolve_error(2)] by (intro same) (simp add: c'_def)
  next
    case (sort_error t l c1 e)
    then show ?thesis using resolve_wells [OF sort_error(2)] by (intro same) (simp add: c'_def)
  next
    case (screen_error t l c1 wl e)
    then show ?thesis using resolve_wells [OF screen_error(2)] by (intro same) (simp add: c'_def)
  next
    case (populate_error t l c1 wl e c2)
    then show ?thesis by (intro pop [OF populate_error(1,2,5)]) (simp add: c'_def)
  next
    case (fold_error t l c1 wl d k c2 e c3)
    then show ?thesis using fold_runs_frame [OF fold_error(6)]
      by (intro pop [OF fold_error(1,2,5)]) (simp add: c'_def)
  next
    case (ok t l c1 wl d k c2 t' n c3)
    then show ?thesis using fold_runs_frame [OF ok(6)]
      by (intro pop [OF ok(1,2,5)]) (simp add: c'_def)
  qed
qed

subsection \<open>Synthesized runs and the samples of a plate\<close>

lemma well_ids_disjoint:
  assumes "distinct (map well_id (wells c))" and "p \<noteq> q"
  shows "set (map well_id (listChildren_Plate c p)) \<inter> set (map well_id (listChildren_Plate c q)) = {}"
proof -
  have inj: "inj_on well_id (set (wells c))" using assms(1) by (simp add: distinct_map)
  show ?thesis
  proof (rule ccontr)
    assume "\<not> ?thesis"
    then obtain i where "i \<in> set (map well_id (listChildren_Plate c p))"
      "i \<in> set (map well_id (listChildren_Plate c q))" by blast
    then obtain w1 w2 where w: "w1 \<in> set (wells c)" "well_plate w1 = p" "well_id w1 = i"
      "w2 \<in> set (wells c)" "well_plate w2 = q" "well_id w2 = i"
      by (auto simp: listChildren_Plate_def)
    with inj have "w1 = w2" by (auto dest: inj_onD)
    with w assms(2) show False by simp
  qed
qed

lemma listPlateAcquisitions_synthesize_other:
  "plate_id p \<noteq> pid \<Longrightarrow>
     listPlateAcquisitions (synthesize_run c p) pid = listPlateAcquisitions c pid"
  by (simp add: listPlateAcquisitions_def runs_synthesize_run)

lemma listPlateAcquisitions_synthesize_own:
  "listPlateAcquisitions c (plate_id p) = [] \<Longrightarrow>
     listPlateAcquisitions (synthesize_run c p) (plate_id p)
       = [\<lparr>run_id = fresh_id (map run_id (runs c)), run_name = plate_name p,
            run_plate = plate_id p, run_start = None\<rparr>]"
  by (simp add: listPlateAcquisitions_def runs_synthesize_run)

lemma plate_samples_synthesize_own:
  "ws \<in> set (plate_samples (synthesize_run c p) (plate_id p))
     \<Longrightarrow> ws_run ws = Some (fresh_id (map run_id (runs c)))"
  by (auto simp: plate_samples_def synthesize_run_def Let_def listChildren_Plate_def
      split: if_splits)

lemma plate_samples_synthesize_other:
  assumes "distinct (map well_id (wells c))" and "plate_id p \<noteq> pid"
  shows "plate_samples (synthesize_run c p) pid = plate_samples c pid"
proof -
  let ?Wp = "set (map well_id (listChildren_Plate c (plate_id p)))"
  let ?W = "set (map well_id (listChildren_Plate c pid))"
  let ?f = "\<lambda>ws. if ws_well ws \<in> ?Wp then ws\<lparr>ws_run := Some (fresh_id (map run_id (runs c)))\<rparr>
                  else ws"
  have dis: "?Wp \<inter> ?W = {}" using well_ids_disjoint [OF assms] .
  have "filter (\<lambda>ws. ws_well ws \<in> ?W) (map ?f S) = filter (\<lambda>ws. ws_well ws \<in> ?W) S" for S
  proof (induction S)
    case Nil
    show ?case by simp
  next
    case (Cons s S)
    show ?case
    proof (cases "ws_well s \<in> ?W")
      case True
      with dis have "ws_well s \<notin> ?Wp" by blast
      with True Cons show ?thesis by simp
    next
      case False
      with Cons show ?thesis by simp
    qed
  qed
  note * = this
  have ws: "well_samples (synthesize_run c p) = map ?f (well_samples c)"
    by (simp add: synthesize_run_def Let_def)
  show ?thesis
    unfolding plate_samples_def listChildren_Plate_synthesize_run ws by (rule *)
qed

lemma map_filter_cong2:
  "map g xs = map g ys \<Longrightarrow> map f xs = map f ys
     \<Longrightarrow> map f (filter (\<lambda>x. P (g x)) xs) = map f (filter (\<lambda>x. P (g x)) ys)"
proof (induction xs arbitrary: ys)
  case Nil
  then show ?case by simp
next
  case (Cons x xs)
  then obtain y ys' where ys: "ys = y # ys'" by (cases ys) auto
  with Cons.prems have "g x = g y" "f x = f y" "map g xs = map g ys'" "map f xs = map f ys'"
    by auto
  with Cons.IH [of ys'] ys show ?case by simp
qed

lemma plate_samples_ids:
  assumes "wells c' = wells c"
    and "map ws_id (well_samples c') = map ws_id (well_samples c)"
    and "map ws_well (well_samples c') = map ws_well (well_samples c)"
  shows "map ws_id (plate_samples c' pid) = map ws_id (plate_samples c pid)"
  unfolding plate_samples_def listChildren_Plate_cong [OF assms(1)]
  using assms(3,2) by (rule map_filter_cong2)

lemma ensure_runs_other:
  assumes "pid \<notin> set ids" and "distinct (map well_id (wells c))"
  shows "listPlateAcquisitions (snd (ensure_runs c ids)) pid = listPlateAcquisitions c pid
    \<and> plate_samples (snd (ensure_runs c ids)) pid = plate_samples c pid"
  using assms
proof (induction ids arbitrary: c)
  case Nil
  then show ?case by simp
next
  case (Cons j ids)
  show ?case
  proof (cases "getObject_Plate c j")
    case None
    then show ?thesis by simp
  next
    case (Some p)
    then have pj: "plate_id p = j" by (rule getObject_Plate_id)
    with Cons.prems have ne: "plate_id p \<noteq> pid" by auto
    show ?thesis
    proof (cases "listPlateAcquisitions c j = []")
      case True
      have "distinct (map well_id (wells (synthesize_run c p)))" using Cons.prems by simp
      with Cons.IH [of "synthesize_run c p"] Cons.prems(1)
      have "listPlateAcquisitions (snd (ensure_runs (synthesize_run c p) ids)) pid
            = listPlateAcquisitions (synthesize_run c p) pid
          \<and> plate_samples (snd (ensure_runs (synthesize_run c p) ids)) pid
            = plate_samples (synthesize_run c p) pid" by simp
      with True Some listPlateAcquisitions_synthesize_other [OF ne]
        plate_samples_synthesize_other [OF Cons.prems(2) ne]
      show ?thesis by simp
    next
      case False
      with Some Cons.IH [of c] Cons.prems show ?thesis by simp
    qed
  qed
qed

lemma ensure_runs_own:
  assumes "pid \<in> set ids" and "distinct ids" and "distinct (map well_id (wells c))"
    and "listPlateAcquisitions c pid = []" and "getObject_Plate c pid = Some plate_o"
    and "ensure_runs c ids = (Inr u, c1)"
  shows "\<exists>run_o. listPlateAcquisitions c1 pid = [run_o]
      \<and> run_name run_o = plate_name plate_o \<and> run_plate run_o = pid \<and> run_start run_o = None
      \<and> run_id run_o \<notin> set (map run_id (runs c))
      \<and> (\<forall>ws\<in>set (plate_samples c1 pid). ws_run ws = Some (run_id run_o))"
  using assms
proof (induction ids arbitrary: c)
  case Nil
  then show ?case by simp
next
  case (Cons j ids)
  show ?case
  proof (cases "j = pid")
    case True
    let ?c = "synthesize_run c plate_o"
    let ?r = "\<lparr>run_id = fresh_id (map run_id (runs c)), run_name = plate_name plate_o,
            run_plate = plate_id plate_o, run_start = None\<rparr>"
    have pid: "plate_id plate_o = pid" using Cons.prems(5) by (rule getObject_Plate_id)
    from Cons.prems True have rest: "ensure_runs ?c ids = (Inr u, c1)" by simp
    from Cons.prems(2) True have notin: "pid \<notin> set ids" by simp
    have dw: "distinct (map well_id (wells ?c))" using Cons.prems(3) by simp
    from ensure_runs_other [OF notin dw] rest
    have same: "listPlateAcquisitions c1 pid = listPlateAcquisitions ?c pid"
      "plate_samples c1 pid = plate_samples ?c pid" by simp_all
    have own: "listPlateAcquisitions ?c pid = [?r]"
      using listPlateAcquisitions_synthesize_own [of c plate_o] Cons.prems(4) pid by simp
    have smp: "\<forall>ws\<in>set (plate_samples ?c pid). ws_run ws = Some (run_id ?r)"
      using plate_samples_synthesize_own [of _ c plate_o] pid by simp
    have fresh: "run_id ?r \<notin> set (map run_id (runs c))"
      using fresh_id_notin [of "map run_id (runs c)"] by simp
    show ?thesis
    proof (intro exI [of _ ?r] conjI)
      show "listPlateAcquisitions c1 pid = [?r]" using same own by simp
      show "run_name ?r = plate_name plate_o" by simp
      show "run_plate ?r = pid" using pid by simp
      show "run_start ?r = None" by simp
      show "run_id ?r \<notin> set (map run_id (runs c))" by (rule fresh)
      show "\<forall>ws\<in>set (plate_samples c1 pid). ws_run ws = Some (run_id ?r)"
        using same smp by simp
    qed
  next
    case False
    with Cons.prems have in_rest: "pid \<in> set ids" and d: "distinct ids" by auto
    from Cons.prems(6) obtain p where p: "getObject_Plate c j = Some p"
      by (cases "getObject_Plate c j") auto
    then have pj: "plate_id p = j" by (rule getObject_Plate_id)
    with False have ne: "plate_id p \<noteq> pid" by simp
    let ?c = "if listPlateAcquisitions c j = [] then synthesize_run c p else c"
    from Cons.prems(6) p have rest: "ensure_runs ?c ids = (Inr u, c1)" by simp
    have dw: "distinct (map well_id (wells ?c))" using Cons.prems(3) by simp
    have nr: "listPlateAcquisitions ?c pid = []"
      using Cons.prems(4) listPlateAcquisitions_synthesize_other [OF ne] by simp
    have go: "getObject_Plate ?c pid = Some plate_o" using Cons.prems(5) by simp
    from Cons.IH [OF in_rest d dw nr go rest] obtain run_o where
      r: "listPlateAcquisitions c1 pid = [run_o]" "run_name run_o = plate_name plate_o"
        "run_plate run_o = pid" "run_start run_o = None"
        "run_id run_o \<notin> set (map run_id (runs ?c))"
        "\<forall>ws\<in>set (plate_samples c1 pid). ws_run ws = Some (run_id run_o)" by blast
    have "set (map run_id (runs c)) \<subseteq> set (map run_id (runs ?c))"
      by (auto simp: runs_synthesize_run)
    with r(5) have "run_id run_o \<notin> set (map run_id (runs c))" by blast
    with r show ?thesis by blast
  qed
qed

lemma concat_single_plate:
  assumes "distinct (map plate_id ps)" and "p0 \<in> set ps"
  shows "concat (map (\<lambda>p. if plate_id p = plate_id p0 then F p else []) ps) = F p0"
  using assms
proof (induction ps)
  case Nil
  then show ?case by simp
next
  case (Cons p ps)
  show ?case
  proof (cases "p = p0")
    case True
    with Cons.prems(1) have "plate_id p0 \<notin> plate_id ` set ps" by simp
    then have "\<forall>q\<in>set ps. plate_id q \<noteq> plate_id p0" by (metis image_eqI)
    then have "concat (map (\<lambda>p. if plate_id p = plate_id p0 then F p else []) ps) = []"
      by (induction ps) auto
    with True show ?thesis by simp
  next
    case False
    with Cons.prems have "p0 \<in> set ps" "plate_id p \<noteq> plate_id p0" by auto
    with Cons show ?thesis by simp
  qed
qed

lemma getObject_Plate_mem: "getObject_Plate c i = Some p \<Longrightarrow> p \<in> set (plates c)"
  by (auto simp: getObject_Plate_def find_Some_iff)

lemma resolve_synthesized:
  assumes "set_iteration so" and "distinct (map plate_id (plates c))"
    and "distinct (map well_id (wells c))"
    and "resolve_plate_run_l so c tid ids ''Plate'' = (Inr l, c1)"
    and "getObject_Plate c pid = Some plate_o" and "pid \<in> set ids" and "pid \<noteq> tid"
    and "listPlateAcquisitions c pid = []"
  shows "\<exists>run_o. filter (\<lambda>x. map_option plate_id (fst x) = Some pid) l = [(Some plate_o, run_o)]
      \<and> listPlateAcquisitions c1 pid = [run_o]
      \<and> run_name run_o = plate_name plate_o \<and> run_plate run_o = pid
      \<and> run_id run_o \<notin> set (map run_id (runs c))
      \<and> (\<forall>ws\<in>set (plate_samples c1 pid). ws_run ws = Some (run_id run_o))
      \<and> map ws_id (plate_samples c1 pid) = map ws_id (plate_samples c pid)"
proof -
  let ?ids = "so (removeAll tid ids)"
  have mem: "pid \<in> set ?ids" using assms(1,6,7) by (simp add: set_iteration_set)
  have dist: "distinct ?ids" using assms(1) by (rule set_iteration_distinct)
  from assms(4) obtain u where er: "ensure_runs c ?ids = (Inr u, c1)"
    and l: "l = concat (map (\<lambda>plate_o. map (\<lambda>run_o. (Some plate_o, run_o))
                 (listPlateAcquisitions c1 (plate_id plate_o))) (getObjects_Plate c1 ?ids))"
    by (auto simp: resolve_plate_run_l_def Let_def split: prod.splits sum.splits)
  from ensure_runs_own [OF mem dist assms(3,8,5) er] obtain run_o where
    r: "listPlateAcquisitions c1 pid = [run_o]" "run_name run_o = plate_name plate_o"
      "run_plate run_o = pid" "run_id run_o \<notin> set (map run_id (runs c))"
      "\<forall>ws\<in>set (plate_samples c1 pid). ws_run ws = Some (run_id run_o)" by blast
  from ensure_runs_frame [of c ?ids] er have fr: "plates c1 = plates c" "wells c1 = wells c"
    "map ws_id (well_samples c1) = map ws_id (well_samples c)"
    "map ws_well (well_samples c1) = map ws_well (well_samples c)" by simp_all
  have pid: "plate_id plate_o = pid" using assms(5) by (rule getObject_Plate_id)
  let ?F = "\<lambda>p. map (\<lambda>run_o. (Some p, run_o)) (listPlateAcquisitions c1 (plate_id p))"
  let ?ps = "getObjects_Plate c1 ?ids"
  have "filter (\<lambda>x. map_option plate_id (fst x) = Some pid) l
      = concat (map (\<lambda>p. if plate_id p = plate_id plate_o then ?F p else []) ?ps)"
    unfolding l filter_concat map_map comp_def
    by (rule arg_cong [where f = concat], rule map_cong) (auto simp: pid)
  also have "\<dots> = ?F plate_o"
  proof (rule concat_single_plate)
    show "distinct (map plate_id ?ps)"
      using assms(2) fr(1) by (simp add: getObjects_Plate_def distinct_map_filter)
    show "plate_o \<in> set ?ps"
      using getObject_Plate_mem [OF assms(5)] fr(1) mem pid by (simp add: getObjects_Plate_def)
  qed
  also have "\<dots> = [(Some plate_o, run_o)]" using r(1) pid by simp
  finally have "filter (\<lambda>x. map_option plate_id (fst x) = Some pid) l = [(Some plate_o, run_o)]" .
  moreover have "map ws_id (plate_samples c1 pid) = map ws_id (plate_samples c pid)"
    using fr(2,3,4) by (rule plate_samples_ids)
  ultimately show ?thesis using r by blast
qed

subsection \<open>The well-samples moved with one run\<close>











subsection \<open>The well-samples moved by the whole work list\<close>

lemma merged_Nil [simp]: "merged c [] s \<longleftrightarrow> False"
  by (simp add: merged_def)




lemma merged_set: "set l = set l' \<Longrightarrow> merged c l = merged c l'"
  by (rule ext) (simp add: merged_def list_ex_iff)






subsection \<open>Integrity of the server state\<close>

lemma wf_conn_iff:
  "wf_conn c \<longleftrightarrow>
     distinct (map plate_id (plates c)) \<and> distinct (map well_id (wells c))
     \<and> distinct (map ws_id (well_samples c)) \<and> distinct (map run_id (runs c))
     \<and> set (map ws_well (well_samples c)) \<subseteq> set (map well_id (wells c))"
  by (auto simp: wf_conn_def list_all_iff)




subsection \<open>The runs of the work list\<close>







subsection \<open>Populating the target, without an assumption on its positions\<close>






subsection \<open>Reading the count back from the message\<close>







subsection \<open>The target is not a source\<close>

lemma ensure_runs_runs_other:
  "pid \<notin> set ids \<Longrightarrow>
     listPlateAcquisitions (snd (ensure_runs c ids)) pid = listPlateAcquisitions c pid"
proof (induction ids arbitrary: c)
  case Nil
  then show ?case by simp
next
  case (Cons j ids)
  show ?case
  proof (cases "getObject_Plate c j")
    case None
    then show ?thesis by simp
  next
    case (Some p)
    then have "plate_id p = j" by (rule getObject_Plate_id)
    with Cons.prems have ne: "plate_id p \<noteq> pid" by auto
    from Cons.prems have "pid \<notin> set ids" by simp
    from Cons.IH [OF this] Some listPlateAcquisitions_synthesize_other [OF ne, of c]
    show ?thesis by simp
  qed
qed

lemma resolve_removes_target:
  "resolve_plate_run_l so c tid ids ''Plate''
     = resolve_plate_run_l so c tid (removeAll tid ids) ''Plate''"
  by (simp add: resolve_plate_run_l_def)

lemma combine_plates_removes_target:
  "combine_plates so c tid sids ''Plate'' sw ss
     = combine_plates so c tid (IdList (removeAll tid (ids_list sids))) ''Plate'' sw ss"
  unfolding combine_plates_def ids_list.simps
    resolve_removes_target [of so c tid "ids_list sids", symmetric] ..

lemma resolve_excludes_target:
  assumes "set_iteration so" and "resolve_plate_run_l so c tid ids ''Plate'' = (Inr l, c1)"
  shows "list_all (\<lambda>x. map_option plate_id (fst x) \<noteq> Some tid) l
    \<and> listPlateAcquisitions c1 tid = listPlateAcquisitions c tid"
proof -
  let ?ids = "so (removeAll tid ids)"
  have notin: "tid \<notin> set ?ids" using assms(1) by (simp add: set_iteration_set)
  from assms(2) obtain u where er: "ensure_runs c ?ids = (Inr u, c1)"
    and l: "l = concat (map (\<lambda>plate_o. map (\<lambda>run_o. (Some plate_o, run_o))
                 (listPlateAcquisitions c1 (plate_id plate_o))) (getObjects_Plate c1 ?ids))"
    by (auto simp: resolve_plate_run_l_def Let_def split: prod.splits sum.splits)
  have "\<forall>x\<in>set l. map_option plate_id (fst x) \<noteq> Some tid"
    unfolding l using notin by (auto simp: getObjects_Plate_def)
  moreover have "listPlateAcquisitions c1 tid = listPlateAcquisitions c tid"
    using ensure_runs_runs_other [OF notin, of c] er by simp
  ultimately show ?thesis by (simp add: list_all_iff)
qed

section \<open>Ordering\<close>

text \<open>
  Claim C1, on the code. Plate 2 has one run, with the start time 100; it is merged into
  plate 1 under \<open>Acquisition start time\<close>. Every run has a start time, so the claim asks
  for the work list sorted by start time. The sort key is applied to the (plate, run) pair
  instead of the run: the call ends in an \<open>AttributeError\<close> and nothing is merged.
\<close>

theorem start_time_order_raises:
  "combine_plates remdups (example_conn (Some 7) (Some 7) (Some 100)) 1 (IdList [2])
     ''Plate'' ''Acquisition start time'' True
   = (Inl AttributeError, example_conn (Some 7) (Some 7) (Some 100))"
  by code_simp

text \<open>
  Claim C4. The label \<open>Plate name\<close> is one of the orderings offered to the user, and it is
  none of the strings the merge compares the ordering with: for every work list the
  ordering step succeeds and hands the work list on as it is, in its original order.
\<close>

theorem plate_name_label_not_sorted:
  "''Plate name'' \<in> set sort_ways \<and> ''Plate & run name'' \<notin> set sort_ways
   \<and> sort_plate_run_l ''Plate name'' plate_run_l = Inr plate_run_l"
  by (simp add: sort_ways_def sort_plate_run_l_def)

section \<open>Validation failures and the persisted state\<close>

text \<open>
  Claim C2, as stated, fails. Plate 2 has no run and is merged as a plate: a run is
  synthesized for it and saved before the work list is ordered or the screens are checked.
  Under \<open>Acquisition start time\<close> the synthesized run has no start time and the merge
  fails; with the plates in the screens 7 and 8 the screen-safety check fails. In both
  cases the persisted state is no longer the initial one.
\<close>

theorem validation_failure_after_synthesis:
  "fst (combine_plates remdups (example_conn_no_runs (Some 7) (Some 7)) 1 (IdList [2])
          ''Plate'' ''Acquisition start time'' True) = Inl (AssertionError NoStartTime)
   \<and> snd (combine_plates remdups (example_conn_no_runs (Some 7) (Some 7)) 1 (IdList [2])
          ''Plate'' ''Acquisition start time'' True) \<noteq> example_conn_no_runs (Some 7) (Some 7)
   \<and> fst (combine_plates remdups (example_conn_no_runs (Some 7) (Some 8)) 1 (IdList [2])
          ''Plate'' ''Acquisition name'' True) = Inl (AssertionError (DifferentScreens {7, 8}))
   \<and> snd (combine_plates remdups (example_conn_no_runs (Some 7) (Some 8)) 1 (IdList [2])
          ''Plate'' ''Acquisition name'' True) \<noteq> example_conn_no_runs (Some 7) (Some 8)"
  by code_simp

text \<open>
  Claim C2, amended. When the merge fails the screen-safety check or the start-time check,
  the persisted state is the one left by the resolution of the work list: no plate and no
  well has changed, every well-sample is still in its well, and the runs that existed are
  unchanged, the only additions being the runs synthesized for source plates without a
  run. When the sources are runs, or every source plate other than the target already has
  a run, the state is exactly the initial one.
\<close>

theorem validation_failure_state:
  assumes "set_iteration set_order"
    and "combine_plates set_order c target_plate_id source_ids source_type sort_way same_screen
           = (Inl e, c')"
    and "validation_failure e"
  shows "c' = snd (resolve_plate_run_l set_order c target_plate_id (ids_list source_ids) source_type)
    \<and> plates c' = plates c \<and> wells c' = wells c
    \<and> map ws_id (well_samples c') = map ws_id (well_samples c)
    \<and> map ws_well (well_samples c') = map ws_well (well_samples c)
    \<and> (\<exists>new. runs c' = runs c @ new)
    \<and> (source_type \<noteq> ''Plate''
         \<or> (\<forall>i\<in>set (ids_list source_ids). i \<noteq> target_plate_id
               \<longrightarrow> listPlateAcquisitions c i \<noteq> [])
        \<longrightarrow> c' = c)"
proof -
  have 1: "c' = snd (resolve_plate_run_l set_order c target_plate_id (ids_list source_ids) source_type)"
    using assms(2,3) by (rule combine_plates_validation)
  have 2: "source_type \<noteq> ''Plate''
         \<or> (\<forall>i\<in>set (ids_list source_ids). i \<noteq> target_plate_id
               \<longrightarrow> listPlateAcquisitions c i \<noteq> [])
        \<longrightarrow> c' = c"
    unfolding 1 using resolve_unchanged [OF assms(1)] by blast
  from resolve_frame [of set_order c target_plate_id "ids_list source_ids" source_type]
  have 3: "plates c' = plates c \<and> wells c' = wells c
    \<and> map ws_id (well_samples c') = map ws_id (well_samples c)
    \<and> map ws_well (well_samples c') = map ws_well (well_samples c)
    \<and> (\<exists>new. runs c' = runs c @ new)"
    unfolding 1 .
  from 1 2 3 show ?thesis by blast
qed

text \<open>
  Witness for claim C2, amended: the run of plate 2 has no start time and is merged as a
  run into plate 1 under \<open>Acquisition start time\<close>; the merge fails and the state is the
  initial one.
\<close>

theorem validation_failure_state_witness:
  "set_iteration remdups
   \<and> combine_plates remdups (example_conn (Some 7) (Some 7) None) 1 (IdList [5])
        ''Acquisition'' ''Acquisition start time'' True
      = (Inl (AssertionError NoStartTime), example_conn (Some 7) (Some 7) None)
   \<and> validation_failure (AssertionError NoStartTime)
   \<and> ''Acquisition'' \<noteq> ''Plate''
   \<and> example_conn (Some 7) (Some 7) None
      = snd (resolve_plate_run_l remdups (example_conn (Some 7) (Some 7) None) 1
               (ids_list (IdList [5])) ''Acquisition'')"
proof -
  have h1: "set_iteration remdups" by (rule set_iteration_remdups)
  have h2: "combine_plates remdups (example_conn (Some 7) (Some 7) None) 1 (IdList [5])
        ''Acquisition'' ''Acquisition start time'' True
      = (Inl (AssertionError NoStartTime), example_conn (Some 7) (Some 7) None)"
    by code_simp
  have h3: "validation_failure (AssertionError NoStartTime)" by simp
  have h4: "''Acquisition'' \<noteq> ''Plate''" by simp
  from validation_failure_state [OF h1 h2 h3] h1 h2 h3 h4 show ?thesis by blast
qed

section \<open>Screen safety\<close>

text \<open>
  Claim C3, as stated, fails. Neither plate 1 nor plate 2 has a screen; merging plate 2
  into plate 1 with the safety enabled fails with the screen-safety error that names both
  plates, and nothing is merged.
\<close>

theorem all_without_screen_rejected:
  "combine_plates remdups (example_conn None None (Some 100)) 1 (IdList [2])
     ''Plate'' ''Acquisition name'' True
   = (Inl (AssertionError (NotInScreen [2, 1])), example_conn None None (Some 100))"
  by code_simp

text \<open>
  Claim C3, amended. With the safety enabled and the plates of the work list resolved,
  the check fails with \<open>not part of a screen\<close>, naming the plates concerned, as soon as one
  involved plate (a plate of the work list or the target) has no screen, also when none
  has one; otherwise it fails with \<open>different Screens\<close> when some plate of the work list
  is in another screen than the target, and it passes when all are in the screen of the
  target.
\<close>

theorem screen_safety_policy:
  assumes "map fst plate_run_l = map Some ps"
  shows "screen_safety plate_run_l target_plate =
    (if \<exists>p\<in>set (ps @ [target_plate]). plate_screen p = None
     then Inl (AssertionError (NotInScreen
            (map plate_id (filter (\<lambda>p. plate_screen p = None) (ps @ [target_plate])))))
     else if \<exists>p\<in>set ps. plate_screen p \<noteq> plate_screen target_plate
     then Inl (AssertionError (DifferentScreens
            (set (map (the \<circ> plate_screen) (ps @ [target_plate])))))
     else Inr ())"
  using assms by (rule screen_safety_resolved)

text \<open>
  Witness for claim C3, amended: plate 2 of screen 7 against the target plate 1 of
  screen 8, and the same plates without a screen.
\<close>

theorem screen_safety_policy_witness:
  "map fst [(Some (example_plate 2 ''P2'' (Some 7)), example_run None)]
     = map Some [example_plate 2 ''P2'' (Some 7)]
   \<and> screen_safety [(Some (example_plate 2 ''P2'' (Some 7)), example_run None)]
        (example_plate 1 ''P1'' (Some 8))
      = Inl (AssertionError (DifferentScreens {7, 8}))
   \<and> map fst [(Some (example_plate 2 ''P2'' None), example_run None)]
     = map Some [example_plate 2 ''P2'' None]
   \<and> screen_safety [(Some (example_plate 2 ''P2'' None), example_run None)]
        (example_plate 1 ''P1'' None)
      = Inl (AssertionError (NotInScreen [2, 1]))"
proof -
  have h1: "map fst [(Some (example_plate 2 ''P2'' (Some 7)), example_run None)]
     = map Some [example_plate 2 ''P2'' (Some 7)]" by simp
  have h2: "map fst [(Some (example_plate 2 ''P2'' None), example_run None)]
     = map Some [example_plate 2 ''P2'' None]" by simp
  from screen_safety_policy [OF h1, of "example_plate 1 ''P1'' (Some 8)"]
  have r1: "screen_safety [(Some (example_plate 2 ''P2'' (Some 7)), example_run None)]
        (example_plate 1 ''P1'' (Some 8))
      = Inl (AssertionError (DifferentScreens {7, 8}))"
    by (simp add: example_plate_def)
  from screen_safety_policy [OF h2, of "example_plate 1 ''P1'' None"]
  have r2: "screen_safety [(Some (example_plate 2 ''P2'' None), example_run None)]
        (example_plate 1 ''P1'' None)
      = Inl (AssertionError (NotInScreen [2, 1]))"
    by (simp add: example_plate_def)
  from h1 h2 r1 r2 show ?thesis by blast
qed

text \<open>
  Claim C9, as stated, fails. The target plate 1 has no screen and the safety is enabled;
  run 5, which has no start time, is merged under \<open>Acquisition start time\<close>. The merge
  fails at the ordering step, with the start-time error and not with a screen-safety
  error: the screens are never looked at.
\<close>

theorem start_time_failure_preempts_screen_check:
  "getObject_Plate (example_conn None None None) 1 = Some (example_plate 1 ''P1'' None)
   \<and> plate_screen (example_plate 1 ''P1'' None) = None
   \<and> fst (combine_plates remdups (example_conn None None None) 1 (IdList [5])
        ''Acquisition'' ''Acquisition start time'' True) = Inl (AssertionError NoStartTime)"
  by code_simp

text \<open>
  Claim C9, amended. With the safety enabled and a target plate that belongs to no screen,
  the merge never succeeds. Whenever the work list has been resolved and ordered without
  a failure (and its plates resolve), the merge fails with the screen-safety error
  \<open>not part of a screen\<close>, which names the target plate: the check always includes the
  target. In particular, when \<open>source_ids\<close> holds only the id of the target, the work list
  is empty and the merge fails with this error, whatever the ordering.
\<close>

theorem target_without_screen_fails:
  assumes "getObject_Plate c target_plate_id = Some target_plate"
    and "plate_screen target_plate = None"
  shows "(\<exists>e. fst (combine_plates set_order c target_plate_id source_ids source_type sort_way True)
             = Inl e)
    \<and> (\<forall>l c1 plate_run_l.
          resolve_plate_run_l set_order c target_plate_id (ids_list source_ids) source_type
            = (Inr l, c1)
          \<and> sort_plate_run_l sort_way l = Inr plate_run_l \<and> None \<notin> set (map fst plate_run_l)
          \<longrightarrow> (\<exists>ids. combine_plates set_order c target_plate_id source_ids source_type sort_way True
                 = (Inl (AssertionError (NotInScreen ids)), c1) \<and> target_plate_id \<in> set ids))
    \<and> (set_iteration set_order \<and> set (ids_list source_ids) = {target_plate_id}
        \<longrightarrow> combine_plates set_order c target_plate_id source_ids ''Plate'' sort_way True
              = (Inl (AssertionError (NotInScreen [target_plate_id])), c))"
proof (intro conjI allI impI)
  note id = getObject_Plate_id [OF assms(1)]
  show "\<exists>e. fst (combine_plates set_order c target_plate_id source_ids source_type sort_way True)
             = Inl e"
  proof (cases rule: combine_plates_cases [where c = c and tid = target_plate_id
        and so = set_order and sids = source_ids and stype = source_type and sw = sort_way
        and ss = True])
    case (populate_error t l c1 wl e c2)
    with assms screen_safety_target_fails [of t wl] show ?thesis by auto
  next
    case (fold_error t l c1 wl d k c2 e c3)
    with assms screen_safety_target_fails [of t wl] show ?thesis by auto
  next
    case (ok t l c1 wl d k c2 t' n c3)
    with assms screen_safety_target_fails [of t wl] show ?thesis by auto
  qed (use assms in auto)
next
  fix l c1 plate_run_l
  assume a: "resolve_plate_run_l set_order c target_plate_id (ids_list source_ids) source_type
            = (Inr l, c1)
          \<and> sort_plate_run_l sort_way l = Inr plate_run_l \<and> None \<notin> set (map fst plate_run_l)"
  then have "\<forall>x\<in>set (map fst plate_run_l). \<exists>p. x = Some p" by (metis not_None_eq)
  then obtain ps where ps: "map fst plate_run_l = map Some ps"
    by (metis ex_map_conv)
  have ex: "\<exists>p\<in>set (ps @ [target_plate]). plate_screen p = None" using assms(2) by simp
  let ?ids = "map plate_id (filter (\<lambda>p. plate_screen p = None) (ps @ [target_plate]))"
  have "screen_safety plate_run_l target_plate = Inl (AssertionError (NotInScreen ?ids))"
    using screen_safety_resolved [OF ps, of target_plate] ex by (simp only: if_True)
  moreover have "target_plate_id \<in> set ?ids"
    using assms(2) getObject_Plate_id [OF assms(1)] by auto
  ultimately show "\<exists>ids. combine_plates set_order c target_plate_id source_ids source_type
       sort_way True = (Inl (AssertionError (NotInScreen ids)), c1) \<and> target_plate_id \<in> set ids"
    using a assms(1) by (auto simp: combine_plates_def)
next
  assume "set_iteration set_order \<and> set (ids_list source_ids) = {target_plate_id}"
  then show "combine_plates set_order c target_plate_id source_ids ''Plate'' sort_way True
              = (Inl (AssertionError (NotInScreen [target_plate_id])), c)"
    using combine_plates_only_target [of set_order source_ids target_plate_id c sort_way True] assms
    by simp
qed


text \<open>
  Witness for claim C9, amended: the plates 1 and 2 have no screen; plate 2 is merged
  into plate 1 under \<open>Acquisition name\<close>, and plate 1 is merged into itself.
\<close>

theorem target_without_screen_fails_witness:
  "getObject_Plate (example_conn None None (Some 100)) 1 = Some (example_plate 1 ''P1'' None)
   \<and> plate_screen (example_plate 1 ''P1'' None) = None
   \<and> resolve_plate_run_l remdups (example_conn None None (Some 100)) 1 (ids_list (IdList [2]))
        ''Plate''
      = (Inr [(Some (example_plate 2 ''P2'' None), example_run (Some 100))],
         example_conn None None (Some 100))
   \<and> sort_plate_run_l ''Acquisition name''
         [(Some (example_plate 2 ''P2'' None), example_run (Some 100))]
      = Inr [(Some (example_plate 2 ''P2'' None), example_run (Some 100))]
   \<and> None \<notin> set (map fst [(Some (example_plate 2 ''P2'' None), example_run (Some 100))])
   \<and> (\<exists>ids. combine_plates remdups (example_conn None None (Some 100)) 1 (IdList [2])
           ''Plate'' ''Acquisition name'' True
         = (Inl (AssertionError (NotInScreen ids)), example_conn None None (Some 100))
         \<and> 1 \<in> set ids)
   \<and> set_iteration remdups \<and> set (ids_list (IdList [1])) = {1}
   \<and> combine_plates remdups (example_conn None None (Some 100)) 1 (IdList [1])
           ''Plate'' ''Acquisition name'' True
         = (Inl (AssertionError (NotInScreen [1])), example_conn None None (Some 100))"
proof -
  have h1: "getObject_Plate (example_conn None None (Some 100)) 1
      = Some (example_plate 1 ''P1'' None)" by code_simp
  have h2: "plate_screen (example_plate 1 ''P1'' None) = None" by code_simp
  have h3: "resolve_plate_run_l remdups (example_conn None None (Some 100)) 1
        (ids_list (IdList [2])) ''Plate''
      = (Inr [(Some (example_plate 2 ''P2'' None), example_run (Some 100))],
         example_conn None None (Some 100))" by code_simp
  have h4: "sort_plate_run_l ''Acquisition name''
         [(Some (example_plate 2 ''P2'' None), example_run (Some 100))]
      = Inr [(Some (example_plate 2 ''P2'' None), example_run (Some 100))]" by code_simp
  have h5: "None \<notin> set (map fst [(Some (example_plate 2 ''P2'' None), example_run (Some 100))])"
    by simp
  have h6: "set_iteration remdups" by (rule set_iteration_remdups)
  have h7: "set (ids_list (IdList [1])) = {1}" by simp
  note t = target_without_screen_fails [OF h1 h2, where set_order = remdups
      and sort_way = "''Acquisition name''"]
  from t [where source_ids = "IdList [2]" and source_type = "''Plate''"] h3 h4 h5
  have r1: "\<exists>ids. combine_plates remdups (example_conn None None (Some 100)) 1 (IdList [2])
           ''Plate'' ''Acquisition name'' True
         = (Inl (AssertionError (NotInScreen ids)), example_conn None None (Some 100))
         \<and> 1 \<in> set ids" by blast
  from t [where source_ids = "IdList [1]" and source_type = "''Plate''"] h6 h7
  have r2: "combine_plates remdups (example_conn None None (Some 100)) 1 (IdList [1])
           ''Plate'' ''Acquisition name'' True
         = (Inl (AssertionError (NotInScreen [1])), example_conn None None (Some 100))" by blast
  from h1 h2 h3 h4 h5 h6 h7 r1 r2 show ?thesis by blast
qed

section \<open>Source plates\<close>

text \<open>
  Claim C8. With \<open>source_type = "Plate"\<close> the id of the target is removed from the source
  ids before anything is processed: for every list of source ids, the merge is the merge
  of the list without the target's id; the resolved work list has no entry whose plate is
  the target, and resolution leaves the runs of the target as they are (none is
  synthesized for it). When \<open>source_ids\<close> holds only the id of the target, the merge
  leaves the persisted state as it is in every outcome: it fails when the target does not
  exist or, with the safety enabled, has no screen, and otherwise it returns the target
  with the message of 0 images from 0 runs and without the clause on created wells.
\<close>

theorem self_merge_no_op:
  assumes "set_iteration set_order"
  shows "combine_plates set_order c target_plate_id source_ids ''Plate'' sort_way same_screen
      = combine_plates set_order c target_plate_id
          (IdList (removeAll target_plate_id (ids_list source_ids))) ''Plate'' sort_way same_screen
    \<and> (\<forall>l c1. resolve_plate_run_l set_order c target_plate_id (ids_list source_ids) ''Plate''
                 = (Inr l, c1)
          \<longrightarrow> list_all (\<lambda>x. map_option plate_id (fst x) \<noteq> Some target_plate_id) l
              \<and> listPlateAcquisitions c1 target_plate_id
                  = listPlateAcquisitions c target_plate_id)
    \<and> (set (ids_list source_ids) = {target_plate_id}
        \<longrightarrow> combine_plates set_order c target_plate_id source_ids ''Plate'' sort_way same_screen =
             (case getObject_Plate c target_plate_id of
                None \<Rightarrow> (Inl (AssertionError TargetNotFound), c)
              | Some target_plate \<Rightarrow>
                  if same_screen \<and> plate_screen target_plate = None
                  then (Inl (AssertionError (NotInScreen [target_plate_id])), c)
                  else (Inr (message 0 0 target_plate_id 0, target_plate), c)))"
proof (intro conjI allI impI)
  show "combine_plates set_order c target_plate_id source_ids ''Plate'' sort_way same_screen
      = combine_plates set_order c target_plate_id
          (IdList (removeAll target_plate_id (ids_list source_ids))) ''Plate'' sort_way same_screen"
    by (rule combine_plates_removes_target)
next
  fix l c1
  assume r: "resolve_plate_run_l set_order c target_plate_id (ids_list source_ids) ''Plate''
                 = (Inr l, c1)"
  from resolve_excludes_target [OF assms r]
  show "list_all (\<lambda>x. map_option plate_id (fst x) \<noteq> Some target_plate_id) l"
    and "listPlateAcquisitions c1 target_plate_id = listPlateAcquisitions c target_plate_id"
    by simp_all
next
  assume "set (ids_list source_ids) = {target_plate_id}"
  with assms show "combine_plates set_order c target_plate_id source_ids ''Plate'' sort_way
       same_screen =
     (case getObject_Plate c target_plate_id of
        None \<Rightarrow> (Inl (AssertionError TargetNotFound), c)
      | Some target_plate \<Rightarrow>
          if same_screen \<and> plate_screen target_plate = None
          then (Inl (AssertionError (NotInScreen [target_plate_id])), c)
          else (Inr (message 0 0 target_plate_id 0, target_plate), c))"
    by (rule combine_plates_only_target)
qed

text \<open>
  Witness for claim C8: the plates 1 and 2 are merged into plate 1, and the work list
  holds the run of plate 2 only; plate 1, of screen 7, is merged into itself, the message
  is the one of an empty merge and the state is unchanged.
\<close>

theorem self_merge_no_op_witness:
  "set_iteration remdups
   \<and> combine_plates remdups (example_conn (Some 7) (Some 7) (Some 100)) 1 (IdList [1, 2])
        ''Plate'' ''Plate name'' True
      = combine_plates remdups (example_conn (Some 7) (Some 7) (Some 100)) 1
          (IdList (removeAll 1 (ids_list (IdList [1, 2])))) ''Plate'' ''Plate name'' True
   \<and> resolve_plate_run_l remdups (example_conn (Some 7) (Some 7) (Some 100)) 1
        (ids_list (IdList [1, 2])) ''Plate''
      = (Inr [(Some (example_plate 2 ''P2'' (Some 7)), example_run (Some 100))],
         example_conn (Some 7) (Some 7) (Some 100))
   \<and> list_all (\<lambda>x. map_option plate_id (fst x) \<noteq> Some 1)
        [(Some (example_plate 2 ''P2'' (Some 7)), example_run (Some 100))]
   \<and> set (ids_list (IdList [1, 1])) = {1}
   \<and> combine_plates remdups (example_conn (Some 7) (Some 7) (Some 100)) 1 (IdList [1, 1])
        ''Plate'' ''Plate name'' True
      = (Inr (''0 Images from 0 Runs merged into Plate:1.'', example_plate 1 ''P1'' (Some 7)),
         example_conn (Some 7) (Some 7) (Some 100))"
proof -
  let ?c = "example_conn (Some 7) (Some 7) (Some 100)"
  have h1: "set_iteration remdups" by (rule set_iteration_remdups)
  have h2: "set (ids_list (IdList [1, 1])) = {1}" by simp
  have h3: "resolve_plate_run_l remdups ?c 1 (ids_list (IdList [1, 2])) ''Plate''
      = (Inr [(Some (example_plate 2 ''P2'' (Some 7)), example_run (Some 100))], ?c)"
    by code_simp
  have r: "(case getObject_Plate ?c 1 of
        None \<Rightarrow> (Inl (AssertionError TargetNotFound), ?c)
      | Some target_plate \<Rightarrow>
          if True \<and> plate_screen target_plate = None
          then (Inl (AssertionError (NotInScreen [1])), ?c)
          else (Inr (message 0 0 1 0, target_plate), ?c))
      = (Inr (''0 Images from 0 Runs merged into Plate:1.'', example_plate 1 ''P1'' (Some 7)),
         ?c)"
    by code_simp
  note a = self_merge_no_op [OF h1, where c = ?c and target_plate_id = 1
      and sort_way = "''Plate name''" and same_screen = True]
  from a [where source_ids = "IdList [1, 2]"] h3
  have r1: "combine_plates remdups ?c 1 (IdList [1, 2]) ''Plate'' ''Plate name'' True
      = combine_plates remdups ?c 1 (IdList (removeAll 1 (ids_list (IdList [1, 2]))))
          ''Plate'' ''Plate name'' True"
    and r2: "list_all (\<lambda>x. map_option plate_id (fst x) \<noteq> Some 1)
        [(Some (example_plate 2 ''P2'' (Some 7)), example_run (Some 100))]"
    by blast+
  from a [where source_ids = "IdList [1, 1]"] h2
  have "combine_plates remdups ?c 1 (IdList [1, 1]) ''Plate'' ''Plate name'' True
      = (case getObject_Plate ?c 1 of
        None \<Rightarrow> (Inl (AssertionError TargetNotFound), ?c)
      | Some target_plate \<Rightarrow>
          if True \<and> plate_screen target_plate = None
          then (Inl (AssertionError (NotInScreen [1])), ?c)
          else (Inr (message 0 0 1 0, target_plate), ?c))"
    by blast
  from h1 h2 h3 r1 r2 trans [OF this r] show ?thesis by blast
qed

text \<open>
  Claim C10. With \<open>source_type = "Plate"\<close>, a source id that resolves to no plate makes
  the merge end in an \<open>AttributeError\<close>, a failure that \<open>run_script\<close> does not report,
  because the missing plate is \<open>None\<close> and a method is called on it. Only the target is
  checked for existence: a missing target is the reported assertion failure, and it comes
  first.
\<close>

theorem missing_source_plate_unhandled:
  assumes "set_iteration set_order"
    and "i \<in> set (ids_list source_ids)" and "getObject_Plate c i = None"
  shows "fst (combine_plates set_order c target_plate_id source_ids ''Plate'' sort_way same_screen)
      = (if getObject_Plate c target_plate_id = None then Inl (AssertionError TargetNotFound)
         else Inl AttributeError)
    \<and> reported (AssertionError TargetNotFound) \<and> \<not> reported AttributeError"
proof (cases "getObject_Plate c target_plate_id")
  case None
  then show ?thesis by (simp add: combine_plates_def)
next
  case (Some t)
  with assms(3) have "i \<noteq> target_plate_id" by auto
  with assms have "i \<in> set (set_order (removeAll target_plate_id (ids_list source_ids)))"
    by (simp add: set_iteration_set)
  then have "fst (ensure_runs c (set_order (removeAll target_plate_id (ids_list source_ids))))
      = Inl AttributeError"
    using assms(3) by (rule ensure_runs_missing)
  then have "fst (resolve_plate_run_l set_order c target_plate_id (ids_list source_ids) ''Plate'')
      = Inl AttributeError"
    by (cases "ensure_runs c (set_order (removeAll target_plate_id (ids_list source_ids)))")
      (auto simp: resolve_plate_run_l_def split: sum.splits)
  with Some show ?thesis
    by (cases "resolve_plate_run_l set_order c target_plate_id (ids_list source_ids) ''Plate''")
      (auto simp: combine_plates_def)
qed


text \<open>
  Witness for claim C10: the plates 2 and 9 are merged into plate 1, and there is no
  plate 9.
\<close>

theorem missing_source_plate_unhandled_witness:
  "set_iteration remdups \<and> 9 \<in> set (ids_list (IdList [2, 9]))
   \<and> getObject_Plate (example_conn (Some 7) (Some 7) (Some 100)) 9 = None
   \<and> fst (combine_plates remdups (example_conn (Some 7) (Some 7) (Some 100)) 1 (IdList [2, 9])
        ''Plate'' ''Acquisition name'' True) = Inl AttributeError"
proof -
  have h1: "set_iteration remdups" by (rule set_iteration_remdups)
  have h2: "9 \<in> set (ids_list (IdList [2, 9]))" by simp
  have h3: "getObject_Plate (example_conn (Some 7) (Some 7) (Some 100)) 9 = None" by code_simp
  have h4: "getObject_Plate (example_conn (Some 7) (Some 7) (Some 100)) 1 \<noteq> None" by code_simp
  from missing_source_plate_unhandled [OF h1 h2 h3, of 1 "''Acquisition name''" True] h4
  have "fst (combine_plates remdups (example_conn (Some 7) (Some 7) (Some 100)) 1
        (IdList [2, 9]) ''Plate'' ''Acquisition name'' True) = Inl AttributeError"
    by (simp only: if_False)
  with h1 h2 h3 show ?thesis by blast
qed

section \<open>Wells of the target\<close>

text \<open>
  Claim C5. If no two wells of the target plate share a position before the merge, then
  none do afterwards, whatever the outcome of the merge, hence for every merge that
  completes. The wells that exist are kept, and every well added belongs to the target
  and sits at a position where the target had no well.
\<close>

theorem well_positions_unique:
  assumes "distinct (map getWellPos (listChildren_Plate c target_plate_id))"
  shows "distinct (map getWellPos (listChildren_Plate
            (snd (combine_plates set_order c target_plate_id source_ids source_type sort_way
                    same_screen)) target_plate_id))
    \<and> (\<exists>new. wells (snd (combine_plates set_order c target_plate_id source_ids source_type
                  sort_way same_screen)) = wells c @ new
         \<and> (\<forall>w\<in>set new. well_plate w = target_plate_id
               \<and> getWellPos w \<notin> getWellPos ` set (listChildren_Plate c target_plate_id)))"
  using assms by (rule combine_plates_wells)

text \<open>
  Witness for claim C5: plate 2, with wells at (0,0) and (2,0), is merged into plate 1,
  with wells at (0,0) and (1,0). The merge completes and creates one well.
\<close>

theorem well_positions_unique_witness:
  "distinct (map getWellPos (listChildren_Plate (example_conn (Some 7) (Some 7) (Some 100)) 1))
   \<and> fst (combine_plates remdups (example_conn (Some 7) (Some 7) (Some 100)) 1 (IdList [2])
        ''Plate'' ''Acquisition name'' True)
      = Inr (''3 Images from 1 Runs merged into Plate:1. 1 Wells created.'',
             example_plate 1 ''P1'' (Some 7))
   \<and> distinct (map getWellPos (listChildren_Plate
        (snd (combine_plates remdups (example_conn (Some 7) (Some 7) (Some 100)) 1 (IdList [2])
                ''Plate'' ''Acquisition name'' True)) 1))"
proof -
  have h: "distinct (map getWellPos
      (listChildren_Plate (example_conn (Some 7) (Some 7) (Some 100)) 1))" by code_simp
  have r: "fst (combine_plates remdups (example_conn (Some 7) (Some 7) (Some 100)) 1
        (IdList [2]) ''Plate'' ''Acquisition name'' True)
      = Inr (''3 Images from 1 Runs merged into Plate:1. 1 Wells created.'',
             example_plate 1 ''P1'' (Some 7))" by code_simp
  from well_positions_unique [OF h, where set_order = remdups and source_ids = "IdList [2]"
      and source_type = "''Plate''" and sort_way = "''Acquisition name''" and same_screen = True]
    h r show ?thesis by blast
qed

section \<open>Synthesized runs\<close>

text \<open>
  Claim C7. With \<open>source_type = "Plate"\<close>, on a server whose ids are unique, let the work
  list be resolved and let \<open>plate_o\<close> be a source plate other than the target that had no
  run. Then the work list has exactly one entry for this plate; its run is the only run of
  the plate afterwards, is a new run named after the plate, and every well-sample of the
  plate belongs to it; the well-samples of the plate are those it had before.
\<close>

theorem auto_run_synthesis:
  assumes "set_iteration set_order" and "wf_conn c"
    and "resolve_plate_run_l set_order c target_plate_id source_ids ''Plate'' = (Inr l, c1)"
    and "getObject_Plate c pid = Some plate_o" and "pid \<in> set source_ids"
    and "pid \<noteq> target_plate_id" and "listPlateAcquisitions c pid = []"
  shows "\<exists>run_o. filter (\<lambda>x. map_option plate_id (fst x) = Some pid) l = [(Some plate_o, run_o)]
      \<and> listPlateAcquisitions c1 pid = [run_o]
      \<and> run_name run_o = plate_name plate_o \<and> run_plate run_o = pid
      \<and> run_id run_o \<notin> set (map run_id (runs c))
      \<and> (\<forall>ws\<in>set (plate_samples c1 pid). ws_run ws = Some (run_id run_o))
      \<and> map ws_id (plate_samples c1 pid) = map ws_id (plate_samples c pid)"
proof -
  from assms(2) have "distinct (map plate_id (plates c))" "distinct (map well_id (wells c))"
    by (simp_all add: wf_conn_iff)
  from resolve_synthesized [OF assms(1) this assms(3-7)] show ?thesis .
qed

text \<open>
  Witness for claim C7: plate 2 has three well-samples and no run; resolving the work
  list for its merge into plate 1 synthesizes run 1, named \<open>P2\<close>, for the three samples.
\<close>

theorem auto_run_synthesis_witness:
  "set_iteration remdups \<and> wf_conn (example_conn_no_runs (Some 7) (Some 7))
   \<and> resolve_plate_run_l remdups (example_conn_no_runs (Some 7) (Some 7)) 1 [2] ''Plate''
      = (Inr [(Some (example_plate 2 ''P2'' (Some 7)),
               \<lparr>run_id = 1, run_name = ''P2'', run_plate = 2, run_start = None\<rparr>)],
         (example_conn_no_runs (Some 7) (Some 7))
           \<lparr>well_samples := example_samples (Some 1),
            runs := [\<lparr>run_id = 1, run_name = ''P2'', run_plate = 2, run_start = None\<rparr>]\<rparr>)
   \<and> getObject_Plate (example_conn_no_runs (Some 7) (Some 7)) 2
      = Some (example_plate 2 ''P2'' (Some 7))
   \<and> 2 \<in> set [2::int] \<and> (2::int) \<noteq> 1
   \<and> listPlateAcquisitions (example_conn_no_runs (Some 7) (Some 7)) 2 = []
   \<and> (\<exists>run_o.
        filter (\<lambda>x. map_option plate_id (fst x) = Some 2)
          [(Some (example_plate 2 ''P2'' (Some 7)),
            \<lparr>run_id = 1, run_name = ''P2'', run_plate = 2, run_start = None\<rparr>)]
          = [(Some (example_plate 2 ''P2'' (Some 7)), run_o)]
        \<and> run_name run_o = plate_name (example_plate 2 ''P2'' (Some 7)))"
proof -
  let ?c = "example_conn_no_runs (Some 7) (Some 7)"
  let ?r = "\<lparr>run_id = 1, run_name = ''P2'', run_plate = 2, run_start = None\<rparr>"
  have h1: "set_iteration remdups" by (rule set_iteration_remdups)
  have h2: "wf_conn ?c" by code_simp
  have h3: "resolve_plate_run_l remdups ?c 1 [2] ''Plate''
      = (Inr [(Some (example_plate 2 ''P2'' (Some 7)), ?r)],
         ?c\<lparr>well_samples := example_samples (Some 1), runs := [?r]\<rparr>)" by code_simp
  have h4: "getObject_Plate ?c 2 = Some (example_plate 2 ''P2'' (Some 7))" by code_simp
  have h5: "2 \<in> set [2::int]" by simp
  have h6: "(2::int) \<noteq> 1" by simp
  have h7: "listPlateAcquisitions ?c 2 = []" by code_simp
  from auto_run_synthesis [OF h1 h2 h3 h4 h5 h6 h7] h1 h2 h3 h4 h5 h6 h7
  show ?thesis by blast
qed

section \<open>Migrated well-samples\<close>



end
